theory Spec2Isabelle
  imports Main
begin

section \<open>Data model of the session manager\<close>

text \<open>
  The session manager (\<^verbatim>\<open>SessionManager\<close> in the server's session module) drives one
  user message through rounds of model generation and tool execution. Everything it
  consumes from @google/gemini-cli-core (the stream of a round, the scheduler's
  callbacks) is data of the model below; every observer event it passes to
  \<^verbatim>\<open>onEvent\<close> is appended to a trace.
\<close>

text \<open>A \<^verbatim>\<open>Part\<close> of @google/genai: a text part, a function response with its
  \<^verbatim>\<open>name\<close> and \<^verbatim>\<open>response\<close> object (keys and values), or any other part.\<close>

datatype Part =
    TextPart string
  | FunctionResponsePart string "(string \<times> string) list"
  | OtherPart string

record ToolCallRequestInfo =
  callId :: string
  name :: string
  args :: string

datatype ToolConfirmationOutcome = ProceedOnce | Cancel

text \<open>Confirmation details: the \<^verbatim>\<open>type\<close> tag, the optional \<^verbatim>\<open>fileName\<close> of an edit, and
  the \<^verbatim>\<open>onConfirm\<close> callback of the scheduler, kept as a handle.\<close>

record ToolCallConfirmationDetails =
  type' :: string
  fileName :: "string option"
  onConfirm :: nat

text \<open>The response of a tool call. \<^verbatim>\<open>responseParts\<close> is read with \<^verbatim>\<open>?.\<close>, so it may be
  absent; \<^verbatim>\<open>result\<close> and \<^verbatim>\<open>output\<close> (here \<open>output'\<close>) are the fields the code probes through \<^verbatim>\<open>any\<close>.\<close>

record ToolCallResponseInfo =
  responseParts :: "Part list option"
  resultDisplay :: "string option"
  result :: "string option"
  output' :: "string option"

datatype Status =
    st_validating | st_scheduled | st_awaiting_approval | st_executing
  | st_success | st_error | st_cancelled

record CompletedToolCall =
  request :: ToolCallRequestInfo
  status :: Status
  response :: "ToolCallResponseInfo option"

text \<open>A tool call as the update callback sees it (typed \<^verbatim>\<open>any\<close> in the source).\<close>

record ToolCall = CompletedToolCall +
  confirmationDetails :: "ToolCallConfirmationDetails option"

text \<open>The events of a round's stream. \<^verbatim>\<open>Content\<close> carries a value that may be undefined;
  \<^verbatim>\<open>Error\<close> carries \<^verbatim>\<open>error.message\<close> and the text \<^verbatim>\<open>String(error)\<close>; every kind of
  \<^verbatim>\<open>GeminiEventType\<close> that the code never names is \<open>OtherEvent\<close> with its tag.\<close>

datatype ServerGeminiStreamEvent =
    Content "string option"
  | Thought string string
  | ToolCallRequest ToolCallRequestInfo
  | ToolCallResponse string "string option"
  | ToolCallConfirmation ToolCallRequestInfo ToolCallConfirmationDetails
  | Error string string
  | ChatCompressed
  | OtherEvent string

text \<open>The \<^verbatim>\<open>result: unknown\<close> of a tool result and the \<^verbatim>\<open>details: unknown\<close> of a
  confirmation request.\<close>

datatype ResultValue =
    Undefined
  | Str string
  | JsonStringify ToolCallResponseInfo

datatype ConfirmDetails =
    RawDetails ToolCallConfirmationDetails
  | Described string string

text \<open>\<^verbatim>\<open>WebStreamEvent\<close>: what the observer receives.\<close>

datatype WebStreamEvent =
    content string
  | thought string
  | tool_call string string
  | tool_result string ResultValue
  | tool_confirm_request string string ConfirmDetails
  | tool_cancelled string
  | chat_compressed
  | error string
  | cancelled
  | finished

section \<open>The event transform\<close>

fun transformEvent :: "ServerGeminiStreamEvent \<Rightarrow> WebStreamEvent option" where
  "transformEvent (Content v) = Some (content (case v of None \<Rightarrow> [] | Some t \<Rightarrow> t))"
| "transformEvent (Thought subject description) =
     Some (thought (subject @ '': '' @ description))"
| "transformEvent (ToolCallRequest r) = Some (tool_call (name r) (args r))"
| "transformEvent (ToolCallResponse cid display) =
     Some (tool_result cid (case display of None \<Rightarrow> Undefined | Some d \<Rightarrow> Str d))"
| "transformEvent (ToolCallConfirmation r confirmDetails) =
     Some (tool_confirm_request (name r) (args r) (RawDetails confirmDetails))"
| "transformEvent (Error msg str) = Some (error msg)"
| "transformEvent ChatCompressed = Some chat_compressed"
| "transformEvent (OtherEvent tag) = None"

section \<open>Session state\<close>

record Config =
  sessionId :: string
  cwd :: string
  targetDir :: string
  model :: string

text \<open>\<^verbatim>\<open>WebSession\<close>. The field \<^verbatim>\<open>id\<close> is \<open>id'\<close> here. \<open>abortController\<close> holds a
  reference to an \<^verbatim>\<open>AbortController\<close> object, or null.\<close>

record WebSession =
  id' :: string
  projectPath :: string
  config :: Config
  abortController :: "nat option"
  currentModelIndex :: nat

text \<open>\<^verbatim>\<open>ToolConfirmation\<close>; \<^verbatim>\<open>args\<close> and \<^verbatim>\<open>onConfirm\<close> are \<open>args'\<close> and \<open>onConfirm'\<close>.\<close>

record ToolConfirmation =
  toolName :: string
  args' :: string
  details :: ToolCallConfirmationDetails
  onConfirm' :: nat

text \<open>
  The two fields of the class, and the \<^verbatim>\<open>AbortController\<close> objects created so far:
  controller \<open>k\<close> is the \<open>k\<close>-th entry of \<open>aborted\<close>, which is its signal's
  \<^verbatim>\<open>aborted\<close> flag. A turn keeps its own reference to its signal (the local
  \<^verbatim>\<open>signal\<close>), whatever the session's field holds later.
\<close>

record SessionManager =
  session :: "WebSession option"
  pendingToolConfirmation :: "ToolConfirmation option"
  aborted :: "bool list"

definition newAbortController :: "SessionManager \<Rightarrow> nat \<times> SessionManager" where
  "newAbortController s = (length (aborted s), s\<lparr>aborted := aborted s @ [False]\<rparr>)"

definition signal_aborted :: "SessionManager \<Rightarrow> nat \<Rightarrow> bool" where
  "signal_aborted s k = (k < length (aborted s) \<and> aborted s ! k)"

definition MODEL_FALLBACK_CHAIN :: "string list" where
  "MODEL_FALLBACK_CHAIN =
     [''gemini-2.5-pro'', ''gemini-2.5-flash'', ''gemini-2.0-flash'', ''gemini-1.5-flash'']"

definition cancelCurrentRequest :: "SessionManager \<Rightarrow> SessionManager" where
  "cancelCurrentRequest s =
     (case session s of
        None \<Rightarrow> s
      | Some sess \<Rightarrow>
          (case abortController sess of
             None \<Rightarrow> s
           | Some k \<Rightarrow> s\<lparr>aborted := (aborted s)[k := True]\<rparr>))"

definition closeSession :: "SessionManager \<Rightarrow> SessionManager" where
  "closeSession s =
     (case session s of
        None \<Rightarrow> s
      | Some sess \<Rightarrow> (cancelCurrentRequest s)\<lparr>session := None\<rparr>)"

text \<open>\<^verbatim>\<open>createSession\<close>, with the fresh UUID as a parameter; directory creation, config
  initialisation and authentication are taken to succeed.\<close>

definition createSession :: "string \<Rightarrow> string \<Rightarrow> SessionManager \<Rightarrow> string \<times> SessionManager" where
  "createSession path uuid s =
     (let s1 = (case session s of None \<Rightarrow> s | Some old \<Rightarrow> closeSession s);
          cfg = \<lparr>sessionId = uuid, cwd = path, targetDir = path,
                 model = MODEL_FALLBACK_CHAIN ! 0\<rparr>
      in (uuid, s1\<lparr>session := Some \<lparr>id' = uuid, projectPath = path, config = cfg,
                                     abortController = None, currentModelIndex = 0\<rparr>\<rparr>))"

text \<open>\<^verbatim>\<open>getCurrentModel\<close>, as its result reads inside a template literal: an index
  outside the chain reads \<^verbatim>\<open>undefined\<close>.\<close>

definition getCurrentModel :: "SessionManager \<Rightarrow> string" where
  "getCurrentModel s =
     (case session s of
        None \<Rightarrow> MODEL_FALLBACK_CHAIN ! 0
      | Some sess \<Rightarrow>
          (if currentModelIndex sess < length MODEL_FALLBACK_CHAIN
           then MODEL_FALLBACK_CHAIN ! currentModelIndex sess
           else ''undefined''))"

section \<open>Model fallback policy\<close>

text \<open>\<^verbatim>\<open>String.prototype.includes\<close> (here \<open>includes'\<close>).\<close>

fun includes' :: "string \<Rightarrow> string \<Rightarrow> bool" where
  "includes' [] sub = (sub = [])"
| "includes' (c # cs) sub = (take (length sub) (c # cs) = sub \<or> includes' cs sub)"

text \<open>A thrown value: an \<^verbatim>\<open>Error\<close> object with its name and message, or any other value
  with its \<^verbatim>\<open>String(...)\<close> text. \<open>String'\<close> is \<^verbatim>\<open>String(error)\<close>, which for an Error object
  is \<^verbatim>\<open>Error.prototype.toString\<close>.\<close>

datatype Thrown = JsError string string | JsValue string

fun String' :: "Thrown \<Rightarrow> string" where
  "String' (JsError nm msg) =
     (if nm = [] then msg else if msg = [] then nm else nm @ '': '' @ msg)"
| "String' (JsValue v) = v"

definition isQuotaError :: "string \<Rightarrow> bool" where
  "isQuotaError errorStr =
     (includes' errorStr ''exhausted your capacity''
      \<or> includes' errorStr ''quota''
      \<or> includes' errorStr ''rate limit''
      \<or> includes' errorStr ''RESOURCE_EXHAUSTED'')"

text \<open>\<^verbatim>\<open>switchToNextModel\<close>; building, initialising and authenticating the new config are
  taken to succeed, with no command of the observer served meanwhile.\<close>

definition switchToNextModel :: "SessionManager \<Rightarrow> bool \<times> SessionManager" where
  "switchToNextModel s =
     (case session s of
        None \<Rightarrow> (False, s)
      | Some sess \<Rightarrow>
          (let nextIndex = currentModelIndex sess + 1 in
           if nextIndex \<ge> length MODEL_FALLBACK_CHAIN then (False, s)
           else
             (let nextModel = MODEL_FALLBACK_CHAIN ! nextIndex;
                  cfg = \<lparr>sessionId = id' sess, cwd = projectPath sess,
                         targetDir = projectPath sess, model = nextModel\<rparr>
              in (True, s\<lparr>session :=
                            Some (sess\<lparr>config := cfg, currentModelIndex := nextIndex\<rparr>)\<rparr>))))"

text \<open>The two fixed texts of the fallback path, UTF-8 encoded: the notice of a switch
  from one model to the next, and the message that every model of the chain is used up,
  which joins the chain with an arrow.\<close>

definition switchNotice :: "string \<Rightarrow> string \<Rightarrow> string" where
  "switchNotice currentModel newModel =
     [CHR 0x0A, CHR 0x0A, CHR 0xE2, CHR 0x9A, CHR 0xA0, CHR 0xEF, CHR 0xB8, CHR 0x8F]
     @ '' **'' @ currentModel @ '' ''
     @ [CHR 0xE9, CHR 0x85, CHR 0x8D, CHR 0xE9, CHR 0xA2, CHR 0x9D, CHR 0xE5, CHR 0xB7,
        CHR 0xB2, CHR 0xE7, CHR 0x94, CHR 0xA8, CHR 0xE5, CHR 0xB0, CHR 0xBD, CHR 0xEF,
        CHR 0xBC, CHR 0x8C, CHR 0xE5, CHR 0xB7, CHR 0xB2, CHR 0xE8, CHR 0x87, CHR 0xAA,
        CHR 0xE5, CHR 0x8A, CHR 0xA8, CHR 0xE5, CHR 0x88, CHR 0x87, CHR 0xE6, CHR 0x8D,
        CHR 0xA2, CHR 0xE5, CHR 0x88, CHR 0xB0]
     @ '' '' @ newModel @ ''**'' @ [CHR 0x0A, CHR 0x0A]"

fun join :: "string list \<Rightarrow> string \<Rightarrow> string" where
  "join [] sep = []"
| "join [x] sep = x"
| "join (x # y # ys) sep = x @ sep @ join (y # ys) sep"

definition exhaustedMessage :: string where
  "exhaustedMessage =
     [CHR 0xE6, CHR 0x89, CHR 0x80, CHR 0xE6, CHR 0x9C, CHR 0x89, CHR 0xE6, CHR 0xA8,
      CHR 0xA1, CHR 0xE5, CHR 0x9E, CHR 0x8B, CHR 0xE9, CHR 0x85, CHR 0x8D, CHR 0xE9,
      CHR 0xA2, CHR 0x9D, CHR 0xE5, CHR 0xB7, CHR 0xB2, CHR 0xE7, CHR 0x94, CHR 0xA8,
      CHR 0xE5, CHR 0xB0, CHR 0xBD, CHR 0xEF, CHR 0xBC, CHR 0x8C, CHR 0xE8, CHR 0xAF,
      CHR 0xB7, CHR 0xE7, CHR 0xA8, CHR 0x8D, CHR 0xE5, CHR 0x90, CHR 0x8E, CHR 0xE5,
      CHR 0x86, CHR 0x8D, CHR 0xE8, CHR 0xAF, CHR 0x95, CHR 0xE3, CHR 0x80, CHR 0x82]
     @ ''(''
     @ join MODEL_FALLBACK_CHAIN ('' '' @ [CHR 0xE2, CHR 0x86, CHR 0x92] @ '' '')
     @ '' ''
     @ [CHR 0xE5, CHR 0x9D, CHR 0x87, CHR 0xE4, CHR 0xB8, CHR 0x8D, CHR 0xE5, CHR 0x8F,
        CHR 0xAF, CHR 0xE7, CHR 0x94, CHR 0xA8]
     @ '')''"

section \<open>Response reconciliation\<close>

text \<open>The fallback part for a call without response parts (lines 400 to 410).\<close>

definition fallbackResponse :: "CompletedToolCall \<Rightarrow> Part" where
  "fallbackResponse completedCall =
     FunctionResponsePart (name (request completedCall))
       [(''error'',
         if status completedCall = st_cancelled
         then ''Tool execution was cancelled''
         else ''Tool execution failed or returned no response'')]"

text \<open>\<^verbatim>\<open>completedCall.response?.responseParts\<close>.\<close>

definition responsePartsOf :: "CompletedToolCall \<Rightarrow> Part list option" where
  "responsePartsOf completedCall =
     (case response completedCall of None \<Rightarrow> None | Some r \<Rightarrow> responseParts r)"

text \<open>The loop over the completed calls (lines 390 to 417), with \<^verbatim>\<open>toolResponseParts\<close>
  as the accumulator; the caller starts it empty.\<close>

fun buildToolResponseParts :: "CompletedToolCall list \<Rightarrow> Part list \<Rightarrow> Part list" where
  "buildToolResponseParts [] toolResponseParts = toolResponseParts"
| "buildToolResponseParts (completedCall # rest) toolResponseParts =
     (case responsePartsOf completedCall of
        Some parts \<Rightarrow>
          (if length parts \<noteq> 0
           then buildToolResponseParts rest (toolResponseParts @ parts)
           else buildToolResponseParts rest (toolResponseParts @ [fallbackResponse completedCall]))
      | None \<Rightarrow>
          buildToolResponseParts rest (toolResponseParts @ [fallbackResponse completedCall]))"

section \<open>Confirmation and the scheduler's callbacks\<close>

text \<open>\<^verbatim>\<open>confirmTool\<close>: the outcome goes to the stored callback (returned here with the
  callback's handle; an exception of the callback is caught and logged), and the slot
  is cleared.\<close>

definition confirmTool ::
  "bool \<Rightarrow> SessionManager \<Rightarrow> SessionManager \<times> (nat \<times> ToolConfirmationOutcome) option" where
  "confirmTool confirmed s =
     (case pendingToolConfirmation s of
        Some pending \<Rightarrow>
          (let outcome = (if confirmed then ProceedOnce else Cancel)
           in (s\<lparr>pendingToolConfirmation := None\<rparr>, Some (onConfirm' pending, outcome)))
      | None \<Rightarrow> (s, None))"

definition hasPendingConfirmation :: "SessionManager \<Rightarrow> bool" where
  "hasPendingConfirmation s = (pendingToolConfirmation s \<noteq> None)"

text \<open>What a turn threads through: the manager, the observer events passed to
  \<^verbatim>\<open>onEvent\<close> so far, oldest first, and the calls of \<^verbatim>\<open>client.sendMessageStream\<close> so far
  (the model of the client, the value of \<^verbatim>\<open>turnCount\<close>, the message sent).\<close>

record StreamCall =
  call_model :: string
  call_round :: nat
  call_message :: "Part list"

record Ctx =
  st :: SessionManager
  emitted :: "WebStreamEvent list"
  calls :: "StreamCall list"

definition onEvent :: "WebStreamEvent \<Rightarrow> Ctx \<Rightarrow> Ctx" where
  "onEvent e c = c\<lparr>emitted := emitted c @ [e]\<rparr>"

text \<open>The result reported for a successful call (lines 587 to 591 and 663 to 667).\<close>

definition resultOf :: "ToolCallResponseInfo option \<Rightarrow> ResultValue" where
  "resultOf resp =
     (case resp of
        None \<Rightarrow> Str ''Tool completed successfully''
      | Some r \<Rightarrow>
          (case resultDisplay r of
             Some d \<Rightarrow> Str d
           | None \<Rightarrow>
               (case result r of
                  Some x \<Rightarrow> Str x
                | None \<Rightarrow>
                    (case output' r of Some y \<Rightarrow> Str y | None \<Rightarrow> JsonStringify r))))"

text \<open>The description of a confirmation request (lines 649 to 652); an edit without a
  file name reads \<^verbatim>\<open>undefined\<close>.\<close>

definition describe :: "ToolCallConfirmationDetails \<Rightarrow> string \<Rightarrow> string" where
  "describe confirmDetails toolNm =
     (if type' confirmDetails = ''edit''
      then ''Edit file: '' @ (case fileName confirmDetails of None \<Rightarrow> ''undefined'' | Some f \<Rightarrow> f)
      else ''Execute: '' @ toolNm)"

text \<open>
  \<^verbatim>\<open>onToolCallsUpdate\<close> (lines 611 to 702): the loop over the reported tool calls, with
  the two sets of the enclosing promise, \<^verbatim>\<open>reportedSuccess\<close> and \<^verbatim>\<open>reportedCancelled\<close>.
  A call awaiting approval without confirmation details makes line 632 throw a
  TypeError before anything is written, which ends the callback.
\<close>

fun onToolCallsUpdate ::
  "ToolCall list \<Rightarrow> Ctx \<times> string set \<times> string set \<Rightarrow> Ctx \<times> string set \<times> string set" where
  "onToolCallsUpdate [] x = x"
| "onToolCallsUpdate (toolCall # rest) (c, reportedSuccess, reportedCancelled) =
     (let cid = callId (request toolCall);
          nm = name (request toolCall)
      in
        if status toolCall = st_awaiting_approval \<and> pendingToolConfirmation (st c) = None
        then
          (case confirmationDetails toolCall of
             None \<Rightarrow> (c, reportedSuccess, reportedCancelled)
           | Some confirmDetails \<Rightarrow>
               onToolCallsUpdate rest
                 (onEvent
                    (tool_confirm_request nm (args (request toolCall))
                       (Described (type' confirmDetails) (describe confirmDetails nm)))
                    (c\<lparr>st := (st c)\<lparr>pendingToolConfirmation :=
                         Some \<lparr>toolName = nm, args' = args (request toolCall),
                               details = confirmDetails,
                               onConfirm' = onConfirm confirmDetails\<rparr>\<rparr>\<rparr>),
                  reportedSuccess, reportedCancelled))
        else if status toolCall = st_success \<and> cid \<notin> reportedSuccess
        then
          onToolCallsUpdate rest
            (onEvent (tool_result nm (resultOf (response toolCall))) c,
             insert cid reportedSuccess, reportedCancelled)
        else if status toolCall = st_cancelled \<and> cid \<notin> reportedCancelled
        then
          onToolCallsUpdate rest
            (onEvent (tool_cancelled nm) c, reportedSuccess, insert cid reportedCancelled)
        else onToolCallsUpdate rest (c, reportedSuccess, reportedCancelled))"

text \<open>\<^verbatim>\<open>onAllToolCallsComplete\<close> (lines 557 to 609): results not yet reported are
  reported, then the promise resolves with the completed calls.\<close>

fun reportCompleted :: "CompletedToolCall list \<Rightarrow> Ctx \<times> string set \<Rightarrow> Ctx \<times> string set" where
  "reportCompleted [] x = x"
| "reportCompleted (call # rest) (c, reportedSuccess) =
     (let cid = callId (request call) in
      if status call = st_success \<and> cid \<notin> reportedSuccess
      then reportCompleted rest
             (onEvent (tool_result (name (request call)) (resultOf (response call))) c,
              insert cid reportedSuccess)
      else reportCompleted rest (c, reportedSuccess))"


text \<open>
  What happens while \<^verbatim>\<open>executeToolsWithScheduler\<close> waits for its promise: the scheduler
  calls the update callback, or the observer sends a command (\<^verbatim>\<open>confirmTool\<close>,
  \<^verbatim>\<open>cancelCurrentRequest\<close>, or \<^verbatim>\<open>closeSession\<close>, which the server runs whenever it is asked
  to); the wait ends when the completion callback resolves the promise or a rejected
  \<^verbatim>\<open>schedule\<close> rejects it. A scheduler that never does either leaves the turn suspended
  and is outside this model.
\<close>

datatype SchedulerItem =
    ToolCallsUpdate "ToolCall list"
  | ConfirmToolCommand bool
  | CancelCommand
  | CloseCommand

datatype SchedulerEnd =
    AllToolCallsComplete "CompletedToolCall list"
  | ScheduleRejected Thrown

fun schedulerCallbacks ::
  "SchedulerItem list \<Rightarrow> Ctx \<times> string set \<times> string set \<Rightarrow> Ctx \<times> string set \<times> string set" where
  "schedulerCallbacks [] x = x"
| "schedulerCallbacks (ToolCallsUpdate toolCalls # rest) x =
     schedulerCallbacks rest (onToolCallsUpdate toolCalls x)"
| "schedulerCallbacks (ConfirmToolCommand confirmed # rest) (c, rs, rc) =
     schedulerCallbacks rest (c\<lparr>st := fst (confirmTool confirmed (st c))\<rparr>, rs, rc)"
| "schedulerCallbacks (CancelCommand # rest) (c, rs, rc) =
     schedulerCallbacks rest (c\<lparr>st := cancelCurrentRequest (st c)\<rparr>, rs, rc)"
| "schedulerCallbacks (CloseCommand # rest) (c, rs, rc) =
     schedulerCallbacks rest (c\<lparr>st := closeSession (st c)\<rparr>, rs, rc)"

definition executeToolsWithScheduler ::
  "SchedulerItem list \<Rightarrow> SchedulerEnd \<Rightarrow> Ctx \<Rightarrow> (Thrown + CompletedToolCall list) \<times> Ctx" where
  "executeToolsWithScheduler callbacks ending c =
     (case schedulerCallbacks callbacks (c, {}, {}) of
        (c1, reportedSuccess, reportedCancelled) \<Rightarrow>
          (case ending of
             AllToolCallsComplete completedToolCalls \<Rightarrow>
               (Inr completedToolCalls,
                fst (reportCompleted completedToolCalls (c1, reportedSuccess)))
           | ScheduleRejected e \<Rightarrow> (Inl e, c1)))"

section \<open>The turn loop\<close>

text \<open>
  The collaborators' side of one round. While the loop waits for the next event of the
  stream, the stream yields an event or the observer calls \<^verbatim>\<open>cancelCurrentRequest\<close> or
  \<^verbatim>\<open>closeSession\<close>; the stream then ends or throws. If the round collected tool-call
  requests, the scheduler's side follows. If the round ends in the restart of line 350,
  \<open>closing\<close> lists the observer's commands that arrive while the loop closes the
  stream's iterator (see \<open>restartTurn\<close>). The \<open>k\<close>-th stream opened during one call of
  \<^verbatim>\<open>sendMessage\<close> (counted over its restarts, from 0) behaves as \<open>world k\<close>, so a world is
  any sequence of behaviours of the model session, the scheduler and the observer.
\<close>

text \<open>
  The model takes the collaborators to answer: a stream ends or throws after finitely
  many events, the scheduler resolves or rejects the promise, and the iterator of a
  stream closes before the restarted turn opens its own stream (a round that never ends
  leaves \<^verbatim>\<open>sendMessage\<close> suspended, which no claim here is about). The observer's callback
  and the construction of a config do not throw. \<^verbatim>\<open>createSession\<close> during a turn begins
  with \<^verbatim>\<open>closeSession\<close>, which is a close command here; the new session it installs
  after its own awaits is taken to arrive after the turn has ended.
\<close>

datatype StreamItem = Yield ServerGeminiStreamEvent | CancelRequest | CloseRequest

datatype StreamEnd = StreamDone | StreamThrows Thrown

datatype ObserverCommand = CancelWhileClosing | CloseWhileClosing

record Round =
  stream :: "StreamItem list"
  streamEnd :: StreamEnd
  schedulerItems :: "SchedulerItem list"
  schedulerEnd :: SchedulerEnd
  closing :: "ObserverCommand list"

type_synonym World = "nat \<Rightarrow> Round"

definition maxTurns :: nat where
  "maxTurns = 50"

definition setAbortController :: "nat option \<Rightarrow> SessionManager \<Rightarrow> SessionManager" where
  "setAbortController v s =
     (case session s of
        None \<Rightarrow> s
      | Some sess \<Rightarrow> s\<lparr>session := Some (sess\<lparr>abortController := v\<rparr>)\<rparr>)"

text \<open>How the \<^verbatim>\<open>for await\<close> loop is left: the stream is exhausted (with the requests
  collected), the function returned, the turn restarts on the next model, or an
  exception goes to the \<^verbatim>\<open>catch\<close> block.\<close>

datatype StreamExit =
    Completed "ToolCallRequestInfo list"
  | Returned
  | Restart
  | Threw Thrown

text \<open>Lines 331 to 359: an Error event, after its transformed event has been sent. The
  assignment of line 349 follows a successful switch, so it finds the session.\<close>

definition handleStreamError :: "string \<Rightarrow> Ctx \<Rightarrow> StreamExit \<times> Ctx" where
  "handleStreamError errorMsg c =
     (if isQuotaError errorMsg
      then
        (let currentModel = getCurrentModel (st c) in
         case switchToNextModel (st c) of
           (switched, s1) \<Rightarrow>
             if switched
             then (Restart,
                   (onEvent (content (switchNotice currentModel (getCurrentModel s1))) c)
                     \<lparr>st := setAbortController None s1\<rparr>)
             else (Returned, onEvent (error errorMsg) (c\<lparr>st := s1\<rparr>)))
      else (Returned, onEvent (error errorMsg) c))"

text \<open>Lines 260 to 360, the \<^verbatim>\<open>for await\<close> loop over the stream of one round.\<close>

fun forAwait ::
  "nat \<Rightarrow> StreamItem list \<Rightarrow> StreamEnd \<Rightarrow> ToolCallRequestInfo list \<Rightarrow> Ctx
   \<Rightarrow> StreamExit \<times> Ctx" where
  "forAwait signal [] ending toolCallRequests c =
     (case ending of
        StreamDone \<Rightarrow> (Completed toolCallRequests, c)
      | StreamThrows e \<Rightarrow> (Threw e, c))"
| "forAwait signal (CancelRequest # rest) ending toolCallRequests c =
     forAwait signal rest ending toolCallRequests (c\<lparr>st := cancelCurrentRequest (st c)\<rparr>)"
| "forAwait signal (CloseRequest # rest) ending toolCallRequests c =
     forAwait signal rest ending toolCallRequests (c\<lparr>st := closeSession (st c)\<rparr>)"
| "forAwait signal (Yield event # rest) ending toolCallRequests c =
     (if signal_aborted (st c) signal then (Returned, onEvent cancelled c)
      else
        (let c1 = (case transformEvent event of
                     Some webEvent \<Rightarrow> onEvent webEvent c
                   | None \<Rightarrow> c)
         in case event of
              ToolCallRequest r \<Rightarrow> forAwait signal rest ending (toolCallRequests @ [r]) c1
            | Error msg str \<Rightarrow> handleStreamError (if msg \<noteq> [] then msg else str) c1
            | _ \<Rightarrow> forAwait signal rest ending toolCallRequests c1))"

text \<open>One pass of the \<^verbatim>\<open>while\<close> body (lines 244 to 435), \<^verbatim>\<open>turnCount\<close> already
  incremented: the round either hands the next message to the following round or leaves
  the loop. A restart takes along the commands that arrive while the round's stream is
  closed.\<close>

datatype LoopExit =
    LoopReturned
  | LoopRestart "ObserverCommand list"
  | LoopThrew Thrown
  | LoopMaxTurns

datatype RoundExit =
    Continue "Part list"
  | Leave LoopExit

definition runRound ::
  "World \<Rightarrow> string \<Rightarrow> nat \<Rightarrow> nat \<Rightarrow> Part list \<Rightarrow> Ctx \<Rightarrow> RoundExit \<times> Ctx" where
  "runRound world client signal turnCount currentMessage c =
     (let rnd = world (length (calls c));
          c0 = c\<lparr>calls := calls c @ [\<lparr>call_model = client, call_round = turnCount,
                                        call_message = currentMessage\<rparr>]\<rparr>
      in case forAwait signal (stream rnd) (streamEnd rnd) [] c0 of
           (Completed toolCallRequests, c1) \<Rightarrow>
             if length toolCallRequests > 0
             then
               (case executeToolsWithScheduler (schedulerItems rnd) (schedulerEnd rnd) c1 of
                  (Inl e, c2) \<Rightarrow> (Leave (LoopThrew e), c2)
                | (Inr completedCalls, c2) \<Rightarrow>
                    (Continue (buildToolResponseParts completedCalls []), c2))
             else (Leave LoopReturned, onEvent finished c1)
         | (Returned, c1) \<Rightarrow> (Leave LoopReturned, c1)
         | (Restart, c1) \<Rightarrow> (Leave (LoopRestart (closing rnd)), c1)
         | (Threw e, c1) \<Rightarrow> (Leave (LoopThrew e), c1))"

text \<open>Lines 243 to 442: the \<^verbatim>\<open>while\<close> loop and the error sent when it runs out.\<close>

function turnLoop ::
  "World \<Rightarrow> string \<Rightarrow> nat \<Rightarrow> nat \<Rightarrow> Part list \<Rightarrow> Ctx \<Rightarrow> LoopExit \<times> Ctx" where
  "turnLoop world client signal turnCount currentMessage c =
     (if turnCount < maxTurns
      then
        (case runRound world client signal (turnCount + 1) currentMessage c of
           (Continue toolResponseParts, c1) \<Rightarrow>
             turnLoop world client signal (turnCount + 1) toolResponseParts c1
         | (Leave exit, c1) \<Rightarrow> (exit, c1))
      else (LoopMaxTurns, onEvent (error ''Maximum conversation turns exceeded'') c))"
  by pat_completeness auto
termination
  by (relation "measure (\<lambda>(world, client, signal, turnCount, currentMessage, c).
                  maxTurns - turnCount)") auto

declare turnLoop.simps [simp del]

text \<open>Lines 443 to 475, the \<^verbatim>\<open>catch\<close> block; the flag says whether the turn restarts.
  The assignment of line 460 follows a successful switch, so it finds the session.\<close>

definition catchBlock :: "Thrown \<Rightarrow> nat \<Rightarrow> Ctx \<Rightarrow> bool \<times> Ctx" where
  "catchBlock e signal c =
     (if isQuotaError (String' e)
      then
        (let currentModel = getCurrentModel (st c) in
         case switchToNextModel (st c) of
           (switched, s1) \<Rightarrow>
             if switched
             then (True,
                   (onEvent (content (switchNotice currentModel (getCurrentModel s1))) c)
                     \<lparr>st := setAbortController None s1\<rparr>)
             else (False, onEvent (error exhaustedMessage) (c\<lparr>st := s1\<rparr>)))
      else if signal_aborted (st c) signal then (False, onEvent cancelled c)
      else (False,
            onEvent (error (case e of JsError nm msg \<Rightarrow> msg | JsValue v \<Rightarrow> ''Unknown error'')) c))"

text \<open>
  Lines 476 to 479, the \<^verbatim>\<open>finally\<close> block. Line 477 reads \<^verbatim>\<open>this.session\<close> without a
  guard: when the session has been closed meanwhile the assignment throws a TypeError,
  which replaces whatever the call was about to return.
\<close>

definition nullSessionError :: Thrown where
  "nullSessionError =
     JsError ''TypeError''
       (''Cannot set properties of null (setting '' @ [CHR 0x27] @ ''abortController''
        @ [CHR 0x27] @ '')'')"

definition finallyBlock :: "Ctx \<Rightarrow> (Thrown + unit) \<times> Ctx" where
  "finallyBlock c =
     (case session (st c) of
        None \<Rightarrow> (Inl nullSessionError, c)
      | Some sess \<Rightarrow> (Inr (), c\<lparr>st := setAbortController None (st c)\<rparr>))"

text \<open>Lines 232 to 234: a new controller is created and stored in the session.\<close>

definition beginTurn :: "SessionManager \<Rightarrow> nat \<times> SessionManager" where
  "beginTurn s =
     (case newAbortController s of
        (k, s1) \<Rightarrow> (k, setAbortController (Some k) s1))"

text \<open>Lines 218 to 234, what \<^verbatim>\<open>sendMessage\<close> does before its \<^verbatim>\<open>try\<close>: without a session
  it throws; otherwise it takes the client of the session's config and begins the turn.
  The result is the client's model, the turn's signal and the manager.\<close>

definition prologue :: "SessionManager \<Rightarrow> Thrown + (string \<times> nat \<times> SessionManager)" where
  "prologue s =
     (case session s of
        None \<Rightarrow> Inl (JsError ''Error'' ''No active session'')
      | Some sess \<Rightarrow>
          (case beginTurn s of (k, s1) \<Rightarrow> Inr (model (config sess), k, s1)))"

fun observerCommand :: "ObserverCommand \<Rightarrow> SessionManager \<Rightarrow> SessionManager" where
  "observerCommand CancelWhileClosing s = cancelCurrentRequest s"
| "observerCommand CloseWhileClosing s = closeSession s"

fun observerCommands :: "ObserverCommand list \<Rightarrow> SessionManager \<Rightarrow> SessionManager" where
  "observerCommands [] s = s"
| "observerCommands (cmd # rest) s = observerCommands rest (observerCommand cmd s)"

text \<open>
  The restart of lines 350 and 461, \<^verbatim>\<open>return this.sendMessage(message, onEvent)\<close> inside
  the \<^verbatim>\<open>try\<close>. The inner call runs synchronously up to its first \<^verbatim>\<open>await\<close> (line 244),
  so it has done its prologue and stored its controller (line 233). Its promise is not
  awaited. At line 461 the caller's \<^verbatim>\<open>finally\<close> block (line 477) runs next. At line 350
  the \<^verbatim>\<open>return\<close> leaves the \<^verbatim>\<open>for await\<close> loop, which first awaits the \<^verbatim>\<open>return()\<close> of the
  stream's iterator: the observer's commands that arrive meanwhile find the inner
  call's controller in the session; then the caller's \<^verbatim>\<open>finally\<close> block runs. Either way
  the block sets the field to null before the first round of the restarted turn, which
  keeps its own signal; and when the session has been closed meanwhile the block throws,
  the caller's promise rejects, and the restarted turn still runs.

  The result: the exception of an inner call without a session, or whether the caller's
  \<^verbatim>\<open>finally\<close> block threw, with the client and the signal of the restarted turn.
\<close>

definition restartTurn ::
  "ObserverCommand list \<Rightarrow> Ctx \<Rightarrow> (Thrown + (bool \<times> string \<times> nat)) \<times> Ctx" where
  "restartTurn whileClosing c =
     (case prologue (st c) of
        Inl e \<Rightarrow>
          (case finallyBlock c of
             (Inl t, c1) \<Rightarrow> (Inl t, c1)
           | (Inr u, c1) \<Rightarrow> (Inl e, c1))
      | Inr (client, k, s1) \<Rightarrow>
          (case finallyBlock (c\<lparr>st := observerCommands whileClosing s1\<rparr>) of
             (Inl t, c1) \<Rightarrow> (Inr (True, client, k), c1)
           | (Inr u, c1) \<Rightarrow> (Inr (False, client, k), c1)))"

text \<open>How many switches to a next model are still possible.\<close>

definition switchesLeft :: "Ctx \<Rightarrow> nat" where
  "switchesLeft c =
     (case session (st c) of
        None \<Rightarrow> 0
      | Some sess \<Rightarrow> length MODEL_FALLBACK_CHAIN - Suc (currentModelIndex sess))"

section \<open>The session and the model index along a turn\<close>

text \<open>No step of a turn changes the session except a close command, which removes it,
  and the switch to the next model. A restart happens exactly after a switch: the
  session is still there and its model index has advanced by one inside the chain. The
  restart of \<^verbatim>\<open>sendMessage\<close> terminates by this.\<close>

definition kept :: "Ctx \<Rightarrow> Ctx \<Rightarrow> bool" where
  "kept c c' = (session (st c') = session (st c) \<or> session (st c') = None)"

definition advanced :: "Ctx \<Rightarrow> Ctx \<Rightarrow> bool" where
  "advanced c c' =
     (\<exists>sess sess'. session (st c) = Some sess \<and> session (st c') = Some sess'
        \<and> currentModelIndex sess' = Suc (currentModelIndex sess)
        \<and> currentModelIndex sess' < length MODEL_FALLBACK_CHAIN)"

lemma kept_refl [simp]: "kept c c"
  by (simp add: kept_def)

lemma kept_same: "session (st c') = session (st c) \<Longrightarrow> kept c c'"
  by (simp add: kept_def)

lemma kept_trans: "kept a b \<Longrightarrow> kept b c \<Longrightarrow> kept a c"
  by (auto simp: kept_def)

lemma kept_advanced: "kept a b \<Longrightarrow> advanced b c \<Longrightarrow> advanced a c"
  by (auto simp: kept_def advanced_def)

lemma advanced_switchesLeft: "advanced c c' \<Longrightarrow> switchesLeft c' < switchesLeft c"
  by (auto simp: advanced_def switchesLeft_def)

lemma kept_switchesLeft: "kept c c' \<Longrightarrow> switchesLeft c' \<le> switchesLeft c"
  by (auto simp: kept_def switchesLeft_def)

lemma st_onEvent [simp]: "st (onEvent e c) = st c"
  by (simp add: onEvent_def)

lemma session_cancelCurrentRequest [simp]: "session (cancelCurrentRequest s) = session s"
  by (simp add: cancelCurrentRequest_def split: option.splits)

lemma session_closeSession [simp]: "session (closeSession s) = None"
  by (simp add: closeSession_def split: option.splits)

lemma session_confirmTool [simp]: "session (fst (confirmTool b s)) = session s"
  by (simp add: confirmTool_def split: option.splits)

lemma session_onToolCallsUpdate:
  "session (st (fst (onToolCallsUpdate tcs x))) = session (st (fst x))"
proof (induction tcs x rule: onToolCallsUpdate.induct)
  case (1 x)
  then show ?case by simp
next
  case (2 toolCall rest c reportedSuccess reportedCancelled)
  then show ?case
    by (simp add: Let_def split: option.splits)
qed

lemma session_reportCompleted:
  "session (st (fst (reportCompleted cs x))) = session (st (fst x))"
  by (induction cs x rule: reportCompleted.induct) (simp_all add: Let_def)

lemma kept_schedulerCallbacks: "kept (fst x) (fst (schedulerCallbacks its x))"
proof (induction its x rule: schedulerCallbacks.induct)
  case (1 x)
  then show ?case by simp
next
  case (2 toolCalls rest x)
  have "kept (fst x) (fst (onToolCallsUpdate toolCalls x))"
    by (rule kept_same) (rule session_onToolCallsUpdate)
  with 2 show ?case by (auto intro: kept_trans)
next
  case (3 confirmed rest c rs rc)
  have "kept c (c\<lparr>st := fst (confirmTool confirmed (st c))\<rparr>)"
    by (simp add: kept_def)
  with 3 show ?case by (auto intro: kept_trans)
next
  case (4 rest c rs rc)
  have "kept c (c\<lparr>st := cancelCurrentRequest (st c)\<rparr>)"
    by (simp add: kept_def)
  with 4 show ?case by (auto intro: kept_trans)
next
  case (5 rest c rs rc)
  have "kept c (c\<lparr>st := closeSession (st c)\<rparr>)"
    by (simp add: kept_def)
  with 5 show ?case by (auto intro: kept_trans)
qed

lemma kept_executeToolsWithScheduler:
  "kept c (snd (executeToolsWithScheduler its en c))"
proof -
  obtain c1 rs rc where s: "schedulerCallbacks its (c, {}, {}) = (c1, rs, rc)"
    by (cases "schedulerCallbacks its (c, {}, {})")
  from kept_schedulerCallbacks [of "(c, {}, {})" its] s have k1: "kept c c1" by simp
  show ?thesis
  proof (cases en)
    case (AllToolCallsComplete cs)
    from session_reportCompleted [of cs "(c1, rs)"]
    have "kept c1 (fst (reportCompleted cs (c1, rs)))" by (simp add: kept_def)
    with k1 s AllToolCallsComplete show ?thesis
      by (auto simp: executeToolsWithScheduler_def intro: kept_trans)
  next
    case (ScheduleRejected e)
    with k1 s show ?thesis by (simp add: executeToolsWithScheduler_def)
  qed
qed

lemma handleStreamError_session:
  "handleStreamError m c = (ex, c') \<Longrightarrow>
     (if ex = Restart then advanced c c' else kept c c')"
  by (auto simp: handleStreamError_def Let_def advanced_def kept_def switchToNextModel_def
                 setAbortController_def onEvent_def
           split: prod.splits if_splits option.splits)

lemma catchBlock_session:
  "catchBlock e k c = (r, c') \<Longrightarrow>
     (if r then advanced c c' else kept c c')"
  by (auto simp: catchBlock_def Let_def advanced_def kept_def switchToNextModel_def
                 setAbortController_def onEvent_def
           split: prod.splits if_splits option.splits)

lemma closed_not_advanced: "session (st c) = None \<Longrightarrow> \<not> advanced c c'"
  by (simp add: advanced_def)

text \<open>One observed event, for the proofs: the observer event sent for it (lines 312 to
  328) and the request collected from it (lines 303 to 309).\<close>

definition sent :: "ServerGeminiStreamEvent \<Rightarrow> Ctx \<Rightarrow> Ctx" where
  "sent event c = (case transformEvent event of Some webEvent \<Rightarrow> onEvent webEvent c | None \<Rightarrow> c)"

fun collected :: "ServerGeminiStreamEvent \<Rightarrow> ToolCallRequestInfo list" where
  "collected (ToolCallRequest r) = [r]"
| "collected event = []"

fun is_error_event :: "ServerGeminiStreamEvent \<Rightarrow> bool" where
  "is_error_event (Error msg str) = True"
| "is_error_event event = False"

lemma forAwait_aborted:
  "signal_aborted (st c) k \<Longrightarrow>
     forAwait k (Yield event # rest) en reqs c = (Returned, onEvent cancelled c)"
  by simp

lemma forAwait_error:
  "\<not> signal_aborted (st c) k \<Longrightarrow>
     forAwait k (Yield (Error msg str) # rest) en reqs c =
       handleStreamError (if msg \<noteq> [] then msg else str) (sent (Error msg str) c)"
  by (simp add: sent_def)

lemma forAwait_other:
  "\<not> signal_aborted (st c) k \<Longrightarrow> \<not> is_error_event event \<Longrightarrow>
     forAwait k (Yield event # rest) en reqs c =
       forAwait k rest en (reqs @ collected event) (sent event c)"
  by (cases event) (simp_all add: sent_def)

lemma st_sent [simp]: "st (sent event c) = st c"
  by (simp add: sent_def split: option.splits)

lemma forAwait_session:
  "forAwait k its en reqs c = (ex, c') \<Longrightarrow>
     (if ex = Restart then advanced c c' else kept c c')"
proof (induction its arbitrary: reqs c)
  case Nil
  then show ?case by (auto split: StreamEnd.splits)
next
  case (Cons item rest)
  show ?case
  proof (cases item)
    case CancelRequest
    let ?c0 = "c\<lparr>st := cancelCurrentRequest (st c)\<rparr>"
    have k: "kept c ?c0" by (simp add: kept_def)
    from Cons.prems CancelRequest have "forAwait k rest en reqs ?c0 = (ex, c')" by simp
    from Cons.IH [OF this] k show ?thesis
      by (auto intro: kept_trans kept_advanced split: if_splits)
  next
    case CloseRequest
    let ?c0 = "c\<lparr>st := closeSession (st c)\<rparr>"
    have k: "kept c ?c0" by (simp add: kept_def)
    from Cons.prems CloseRequest have "forAwait k rest en reqs ?c0 = (ex, c')" by simp
    from Cons.IH [OF this] k show ?thesis
      by (auto intro: kept_trans kept_advanced split: if_splits)
  next
    case (Yield event)
    have k: "kept c (sent event c)" by (simp add: kept_def)
    show ?thesis
    proof (cases "signal_aborted (st c) k")
      case True
      with Cons.prems Yield show ?thesis by (auto simp: kept_def)
    next
      case False
      show ?thesis
      proof (cases "is_error_event event")
        case True
        then obtain msg str where e: "event = Error msg str" by (cases event) auto
        have "handleStreamError (if msg \<noteq> [] then msg else str) (sent event c) = (ex, c')"
          using Cons.prems [unfolded Yield e] unfolding e forAwait_error [OF False] .
        from handleStreamError_session [OF this] k show ?thesis
          by (auto intro: kept_trans kept_advanced split: if_splits)
      next
        case other: False
        have "forAwait k rest en (reqs @ collected event) (sent event c) = (ex, c')"
          using Cons.prems [unfolded Yield] unfolding forAwait_other [OF False other] .
        from Cons.IH [OF this] k show ?thesis
          by (auto intro: kept_trans kept_advanced split: if_splits)
      qed
    qed
  qed
qed

lemma runRound_session:
  "runRound world client k n msg c = (ex, c') \<Longrightarrow>
     (case ex of Leave (LoopRestart w) \<Rightarrow> advanced c c' | _ \<Rightarrow> kept c c')"
proof -
  assume a: "runRound world client k n msg c = (ex, c')"
  let ?rnd = "world (length (calls c))"
  let ?c0 = "c\<lparr>calls := calls c @ [\<lparr>call_model = client, call_round = n, call_message = msg\<rparr>]\<rparr>"
  obtain sx c1 where f: "forAwait k (stream ?rnd) (streamEnd ?rnd) [] ?c0 = (sx, c1)"
    by (cases "forAwait k (stream ?rnd) (streamEnd ?rnd) [] ?c0")
  have k0: "kept c ?c0" by (simp add: kept_def)
  note fs = forAwait_session [OF f]
  show ?thesis
  proof (cases sx)
    case (Completed reqs)
    with fs k0 have k1: "kept c c1" by (auto intro: kept_trans)
    show ?thesis
    proof (cases "length reqs > 0")
      case True
      obtain r c2 where e: "executeToolsWithScheduler (schedulerItems ?rnd) (schedulerEnd ?rnd) c1 = (r, c2)"
        by (cases "executeToolsWithScheduler (schedulerItems ?rnd) (schedulerEnd ?rnd) c1")
      from kept_executeToolsWithScheduler [of c1 "schedulerItems ?rnd" "schedulerEnd ?rnd"] e k1
      have "kept c c2" by (auto intro: kept_trans)
      with a f e Completed True show ?thesis
        by (auto simp: runRound_def Let_def split: sum.splits)
    next
      case False
      with a f Completed k1 show ?thesis
        by (auto simp: runRound_def Let_def kept_def)
    qed
  next
    case Returned
    with a f fs k0 show ?thesis by (auto simp: runRound_def Let_def intro: kept_trans)
  next
    case Restart
    with a f fs k0 show ?thesis by (auto simp: runRound_def Let_def intro: kept_advanced)
  next
    case (Threw e)
    with a f fs k0 show ?thesis by (auto simp: runRound_def Let_def intro: kept_trans)
  qed
qed

lemma turnLoop_session:
  "turnLoop world client k n msg c = (ex, c') \<Longrightarrow>
     (case ex of LoopRestart w \<Rightarrow> advanced c c' | _ \<Rightarrow> kept c c')"
proof (induction world client k n msg c rule: turnLoop.induct)
  case (1 world client signal turnCount currentMessage c)
  show ?case
  proof (cases "turnCount < maxTurns")
    case False
    with "1.prems" show ?thesis
      by (auto simp: turnLoop.simps [of world client signal turnCount] kept_def)
  next
    case True
    obtain rx c1 where r: "runRound world client signal (turnCount + 1) currentMessage c = (rx, c1)"
      by (cases "runRound world client signal (turnCount + 1) currentMessage c")
    note rs = runRound_session [OF r]
    show ?thesis
    proof (cases rx)
      case (Continue parts)
      with rs have k1: "kept c c1" by simp
      from "1.prems" True r Continue
      have "turnLoop world client signal (turnCount + 1) parts c1 = (ex, c')"
        by (simp add: turnLoop.simps [of world client signal turnCount])
      from "1.IH" [OF True r [symmetric] Continue this] k1
      show ?thesis by (auto intro: kept_trans kept_advanced split: LoopExit.splits)
    next
      case (Leave lx)
      with "1.prems" True r have "ex = lx" "c' = c1"
        by (simp_all add: turnLoop.simps [of world client signal turnCount])
      with rs Leave show ?thesis by auto
    qed
  qed
qed

lemma session_observerCommands:
  "session (observerCommands cmds s) = session s \<or> session (observerCommands cmds s) = None"
proof (induction cmds arbitrary: s)
  case Nil
  then show ?case by simp
next
  case (Cons cmd rest)
  from Cons [of "observerCommand cmd s"] show ?case
    by (cases cmd) auto
qed

lemma currentModelIndex_beginTurn:
  "session s = Some sess \<Longrightarrow>
     \<exists>sess1. session (snd (beginTurn s)) = Some sess1
        \<and> currentModelIndex sess1 = currentModelIndex sess"
  by (simp add: beginTurn_def newAbortController_def setAbortController_def split: prod.splits)

lemma restartTurn_switchesLeft:
  "restartTurn w c = (r, c') \<Longrightarrow> switchesLeft c' \<le> switchesLeft c"
proof (cases "session (st c)")
  case None
  assume "restartTurn w c = (r, c')"
  with None show ?thesis
    by (auto simp: restartTurn_def prologue_def finallyBlock_def)
next
  case (Some sess)
  assume a: "restartTurn w c = (r, c')"
  obtain k s1 where b: "beginTurn (st c) = (k, s1)" by (cases "beginTurn (st c)")
  from currentModelIndex_beginTurn [OF Some] b
  obtain sess1 where s1: "session s1 = Some sess1"
    and i1: "currentModelIndex sess1 = currentModelIndex sess" by auto
  let ?s2 = "observerCommands w s1"
  from session_observerCommands [of w s1] s1
  have "session ?s2 = Some sess1 \<or> session ?s2 = None" by simp
  then show ?thesis
  proof
    assume "session ?s2 = None"
    with a Some b show ?thesis
      by (auto simp: restartTurn_def prologue_def finallyBlock_def switchesLeft_def)
  next
    assume "session ?s2 = Some sess1"
    with a Some b i1 show ?thesis
      by (auto simp: restartTurn_def prologue_def finallyBlock_def switchesLeft_def
                     setAbortController_def)
  qed
qed


section \<open>sendMessage\<close>

text \<open>
  \<^verbatim>\<open>sendMessage\<close> from its \<^verbatim>\<open>try\<close> on (lines 236 to 480), for a turn that has its client
  and its signal: the loop, the \<^verbatim>\<open>catch\<close> block, the restarts and the \<^verbatim>\<open>finally\<close> block.
  The result is \<open>Inl\<close> of the thrown value when the call's promise rejects and \<open>Inr ()\<close>
  when it resolves.
\<close>

text \<open>The promise of a call that restarted: it rejects with the exception of the
  call's own \<^verbatim>\<open>finally\<close> block if that threw, and otherwise settles as the promise of
  the restarted call does.\<close>

definition adopt :: "bool \<Rightarrow> (Thrown + unit) \<times> Ctx \<Rightarrow> (Thrown + unit) \<times> Ctx" where
  "adopt callerThrew inner =
     (if callerThrew then (Inl nullSessionError, snd inner) else inner)"

function runTurn :: "World \<Rightarrow> string \<Rightarrow> string \<Rightarrow> nat \<Rightarrow> Ctx \<Rightarrow> (Thrown + unit) \<times> Ctx" where
  "runTurn world message client signal c =
     (case turnLoop world client signal 0 [TextPart message] c of
        (LoopReturned, c1) \<Rightarrow> finallyBlock c1
      | (LoopMaxTurns, c1) \<Rightarrow> finallyBlock c1
      | (LoopRestart whileClosing, c1) \<Rightarrow>
          (case restartTurn whileClosing c1 of
             (Inl e, c2) \<Rightarrow> (Inl e, c2)
           | (Inr (callerThrew, client2, signal2), c2) \<Rightarrow>
               adopt callerThrew (runTurn world message client2 signal2 c2))
      | (LoopThrew e, c1) \<Rightarrow>
          (case catchBlock e signal c1 of
             (True, c2) \<Rightarrow>
               (case restartTurn [] c2 of
                  (Inl e2, c3) \<Rightarrow> (Inl e2, c3)
                | (Inr (callerThrew, client2, signal2), c3) \<Rightarrow>
                    adopt callerThrew (runTurn world message client2 signal2 c3))
           | (False, c2) \<Rightarrow> finallyBlock c2))"
  by pat_completeness auto
termination
proof (relation "measure (\<lambda>(world, message, client, signal, c). switchesLeft c)", goal_cases)
  case 1
  show ?case by simp
next
  case (2 world message client signal c lx c1 whileClosing r c2 started callerThrew rest client2 signal2)
  from 2 have t: "turnLoop world client signal 0 [TextPart message] c = (LoopRestart whileClosing, c1)"
    by simp
  from 2 have rt: "restartTurn whileClosing c1 = (r, c2)" by simp
  from turnLoop_session [OF t] have "advanced c c1" by simp
  from advanced_switchesLeft [OF this] restartTurn_switchesLeft [OF rt]
  show ?case by simp
next
  case (3 world message client signal c lx c1 e again c2 r c3 started callerThrew rest client2 signal2)
  from 3 have t: "turnLoop world client signal 0 [TextPart message] c = (LoopThrew e, c1)"
    by simp
  from 3 have cb: "catchBlock e signal c1 = (True, c2)" by simp
  from 3 have rt: "restartTurn [] c2 = (r, c3)" by simp
  from turnLoop_session [OF t] have "kept c c1" by simp
  moreover from catchBlock_session [OF cb] have "advanced c1 c2" by simp
  ultimately have "advanced c c2" by (rule kept_advanced)
  from advanced_switchesLeft [OF this] restartTurn_switchesLeft [OF rt]
  show ?case by simp
qed

declare runTurn.simps [simp del]

text \<open>\<^verbatim>\<open>sendMessage\<close> (lines 214 to 480): the prologue, then the turn.\<close>

definition sendMessage :: "World \<Rightarrow> string \<Rightarrow> SessionManager \<Rightarrow> (Thrown + unit) \<times> Ctx" where
  "sendMessage world message s =
     (case prologue s of
        Inl e \<Rightarrow> (Inl e, \<lparr>st = s, emitted = [], calls = []\<rparr>)
      | Inr (client, signal, s1) \<Rightarrow>
          runTurn world message client signal \<lparr>st = s1, emitted = [], calls = []\<rparr>)"

section \<open>Concrete managers and worlds\<close>

text \<open>The manager before any session exists, the manager after one
  \<^verbatim>\<open>createSession\<close>, and a world whose every stream yields one content event.\<close>

definition no_manager :: SessionManager where
  "no_manager = \<lparr>session = None, pendingToolConfirmation = None, aborted = []\<rparr>"

definition fresh_manager :: SessionManager where
  "fresh_manager = snd (createSession ''/proj'' ''uuid-1'' no_manager)"

definition round_of :: "StreamItem list \<Rightarrow> Round" where
  "round_of its = \<lparr>stream = its, streamEnd = StreamDone, schedulerItems = [],
                    schedulerEnd = AllToolCallsComplete [], closing = []\<rparr>"

definition greeting_world :: World where
  "greeting_world k = round_of [Yield (Content (Some ''hello''))]"



section \<open>Concrete tool calls\<close>

text \<open>Two requests; a call that failed with response parts, one that succeeded with one
  response part, one that was cancelled without a response; and worlds whose first
  round requests tools.\<close>

definition read_request :: ToolCallRequestInfo where
  "read_request = \<lparr>callId = ''call-1'', name = ''read_file'', args = ''{path: a.txt}''\<rparr>"

definition shell_request :: ToolCallRequestInfo where
  "shell_request = \<lparr>callId = ''call-2'', name = ''shell'', args = ''{cmd: ls}''\<rparr>"


definition succeeded_call :: CompletedToolCall where
  "succeeded_call =
     \<lparr>request = read_request, status = st_success,
      response = Some \<lparr>responseParts = Some [FunctionResponsePart ''read_file'' [(''output'', ''text'')]],
                        resultDisplay = Some ''text'', result = None, output' = None\<rparr>\<rparr>"


definition tool_round :: "ToolCallRequestInfo list \<Rightarrow> CompletedToolCall list \<Rightarrow> Round" where
  "tool_round requests completedCalls =
     \<lparr>stream = map (\<lambda>r. Yield (ToolCallRequest r)) requests, streamEnd = StreamDone,
      schedulerItems = [], schedulerEnd = AllToolCallsComplete completedCalls,
      closing = []\<rparr>"




section \<open>Concrete failing streams\<close>

text \<open>An Error event and an exception that match the quota signature, and worlds in
  which a stream yields an Error event, throws, or is cancelled by the observer.\<close>

definition quota_error :: ServerGeminiStreamEvent where
  "quota_error = Error ''You exceeded your current quota'' ''[object Object]''"

definition quota_exception :: Thrown where
  "quota_exception = JsError ''Error'' ''You exceeded your current quota''"

definition throwing_round :: "Thrown \<Rightarrow> Round" where
  "throwing_round e = (round_of [])\<lparr>streamEnd := StreamThrows e\<rparr>"

definition failing_stream_world :: World where
  "failing_stream_world k = round_of [Yield (Error ''boom'' ''[object Object]'')]"

definition quota_event_world :: World where
  "quota_event_world k =
     (if k = 0 then tool_round [read_request] [succeeded_call]
      else if k = 1 then round_of [Yield quota_error]
      else round_of [Yield (Content (Some ''hello''))])"

definition quota_thrown_world :: World where
  "quota_thrown_world k =
     (if k = 0 then tool_round [read_request] [succeeded_call]
      else if k = 1 then throwing_round quota_exception
      else round_of [Yield (Content (Some ''hello''))])"

definition quota_events_world :: World where
  "quota_events_world k = round_of [Yield quota_error]"

definition quota_throws_world :: World where
  "quota_throws_world k = throwing_round quota_exception"

definition cancel_world :: World where
  "cancel_world k = round_of [CancelRequest, CancelRequest, Yield (Content (Some ''hello''))]"

definition cancel_after_restart_world :: World where
  "cancel_after_restart_world k =
     (if k = 0 then throwing_round quota_exception
      else round_of [CancelRequest, CancelRequest, Yield (Content (Some ''hello''))])"

section \<open>The controller field after a turn\<close>

text \<open>When \<^verbatim>\<open>sendMessage\<close> has run its \<^verbatim>\<open>finally\<close> block without an exception, the session's
  controller field is null; in any case a session that is still there afterwards has a
  null field. A round is never closed when no close command arrives in it; if no round
  is, the session stays and the call returns.\<close>

fun is_close_item :: "StreamItem \<Rightarrow> bool" where
  "is_close_item CloseRequest = True"
| "is_close_item item = False"

fun is_close_command :: "SchedulerItem \<Rightarrow> bool" where
  "is_close_command CloseCommand = True"
| "is_close_command item = False"

fun is_close :: "ObserverCommand \<Rightarrow> bool" where
  "is_close CloseWhileClosing = True"
| "is_close cmd = False"

definition neverClosed :: "Round \<Rightarrow> bool" where
  "neverClosed rnd =
     (\<not> list_ex is_close_item (stream rnd)
      \<and> \<not> list_ex is_close_command (schedulerItems rnd)
      \<and> \<not> list_ex is_close (closing rnd))"

definition cleared :: "Ctx \<Rightarrow> bool" where
  "cleared c = (case session (st c) of None \<Rightarrow> True | Some sess \<Rightarrow> abortController sess = None)"

definition active :: "Ctx \<Rightarrow> bool" where
  "active c = (session (st c) \<noteq> None)"

lemma finallyBlock_cleared:
  "cleared (snd (finallyBlock c))
   \<and> (fst (finallyBlock c) = Inr () \<longleftrightarrow> active c)
   \<and> (active c \<longrightarrow> active (snd (finallyBlock c)))"
  by (auto simp: finallyBlock_def cleared_def active_def setAbortController_def
           split: option.splits)

lemma restartTurn_cleared: "cleared (snd (restartTurn w c))"
  by (auto simp: restartTurn_def prologue_def finallyBlock_def cleared_def
                 setAbortController_def
           split: option.splits prod.splits sum.splits)

lemma adopt_cleared [simp]: "cleared (snd (adopt b x)) = cleared (snd x)"
  by (simp add: adopt_def)

lemma adopt_returns: "fst (adopt b x) = Inr () \<Longrightarrow> fst x = Inr () \<and> snd (adopt b x) = snd x"
  by (auto simp: adopt_def nullSessionError_def split: if_splits)

lemma runTurn_cleared:
  "cleared (snd (runTurn world message client k c))
   \<and> (fst (runTurn world message client k c) = Inr ()
        \<longrightarrow> active (snd (runTurn world message client k c)))"
proof (induction world message client k c rule: runTurn.induct)
  case (1 world message client signal c)
  let ?P = "\<lambda>x. cleared (snd x) \<and> (fst x = Inr () \<longrightarrow> active (snd x))"
  obtain lx c1 where t: "turnLoop world client signal 0 [TextPart message] c = (lx, c1)"
    by (cases "turnLoop world client signal 0 [TextPart message] c")
  have fin: "?P (finallyBlock c')" for c'
    using finallyBlock_cleared [of c'] by auto
  have ad: "?P x \<Longrightarrow> ?P (adopt b x)" for b x
    using adopt_returns [of b x] by auto
  show ?case
  proof (cases lx)
    case LoopReturned
    with t fin [of c1] show ?thesis
      by (simp add: runTurn.simps [of world message client signal c])
  next
    case LoopMaxTurns
    with t fin [of c1] show ?thesis
      by (simp add: runTurn.simps [of world message client signal c])
  next
    case (LoopRestart w)
    obtain r c2 where rt: "restartTurn w c1 = (r, c2)" by (cases "restartTurn w c1")
    show ?thesis
    proof (cases r)
      case (Inl e)
      with t LoopRestart rt restartTurn_cleared [of w c1] show ?thesis
        by (simp add: runTurn.simps [of world message client signal c])
    next
      case (Inr x)
      obtain callerThrew client2 signal2 where x: "x = (callerThrew, client2, signal2)"
        by (cases x)
      from Inr x have r: "r = Inr (callerThrew, client2, signal2)" by simp
      from "1.IH"(1) [OF t [symmetric] LoopRestart rt [symmetric] r refl refl]
      have "?P (runTurn world message client2 signal2 c2)" .
      from ad [OF this, of callerThrew] t LoopRestart rt r show ?thesis
        by (simp add: runTurn.simps [of world message client signal c])
    qed
  next
    case (LoopThrew e)
    obtain again c2 where cb: "catchBlock e signal c1 = (again, c2)"
      by (cases "catchBlock e signal c1")
    show ?thesis
    proof (cases again)
      case False
      with t LoopThrew cb fin [of c2] show ?thesis
        by (simp add: runTurn.simps [of world message client signal c])
    next
      case True
      obtain r c3 where rt: "restartTurn [] c2 = (r, c3)" by (cases "restartTurn [] c2")
      from cb True have cb': "(True, c2) = catchBlock e signal c1" by simp
      show ?thesis
      proof (cases r)
        case (Inl e2)
        with t LoopThrew cb True rt restartTurn_cleared [of "[]" c2] show ?thesis
          by (simp add: runTurn.simps [of world message client signal c])
      next
        case (Inr x)
        obtain callerThrew client2 signal2 where x: "x = (callerThrew, client2, signal2)"
          by (cases x)
        from Inr x have r: "r = Inr (callerThrew, client2, signal2)" by simp
        from "1.IH"(2) [OF t [symmetric] LoopThrew cb' refl rt [symmetric] r refl refl]
        have "?P (runTurn world message client2 signal2 c3)" .
        from ad [OF this, of callerThrew] t LoopThrew cb True rt r show ?thesis
          by (simp add: runTurn.simps [of world message client signal c])
      qed
    qed
  qed
qed

lemma active_st_cong: "session (st c') = session (st c) \<Longrightarrow> active c' = active c"
  by (simp add: active_def)

lemma advanced_active: "advanced c c' \<Longrightarrow> active c'"
  by (auto simp: advanced_def active_def)

lemma active_handleStreamError: "active c \<Longrightarrow> active (snd (handleStreamError m c))"
  by (auto simp: handleStreamError_def Let_def active_def switchToNextModel_def
                 setAbortController_def onEvent_def
           split: prod.splits if_splits option.splits)

lemma active_catchBlock: "active c \<Longrightarrow> active (snd (catchBlock e k c))"
  by (auto simp: catchBlock_def Let_def active_def switchToNextModel_def
                 setAbortController_def onEvent_def
           split: prod.splits if_splits option.splits)

lemma active_forAwait:
  "\<not> list_ex is_close_item its \<Longrightarrow> active c \<Longrightarrow> active (snd (forAwait k its en reqs c))"
proof (induction its arbitrary: reqs c)
  case Nil
  then show ?case by (simp split: StreamEnd.splits)
next
  case (Cons item rest)
  from Cons.prems have nc: "\<not> list_ex is_close_item rest" by simp
  show ?case
  proof (cases item)
    case CancelRequest
    have "active (c\<lparr>st := cancelCurrentRequest (st c)\<rparr>)"
      using Cons.prems(2) by (simp add: active_def)
    from Cons.IH [OF nc this] CancelRequest show ?thesis by simp
  next
    case CloseRequest
    with Cons.prems show ?thesis by simp
  next
    case (Yield event)
    have a1: "active (sent event c)" using Cons.prems(2) by (simp add: active_def)
    show ?thesis
    proof (cases "signal_aborted (st c) k")
      case True
      with Yield Cons.prems(2) show ?thesis by (simp add: active_def)
    next
      case False
      show ?thesis
      proof (cases "is_error_event event")
        case True
        then obtain msg str where e: "event = Error msg str" by (cases event) auto
        from active_handleStreamError [OF a1] show ?thesis
          unfolding Yield e forAwait_error [OF False] .
      next
        case other: False
        from Cons.IH [OF nc a1] show ?thesis
          unfolding Yield forAwait_other [OF False other] .
      qed
    qed
  qed
qed

lemma session_schedulerCallbacks:
  "\<not> list_ex is_close_command its \<Longrightarrow>
     session (st (fst (schedulerCallbacks its x))) = session (st (fst x))"
  by (induction its x rule: schedulerCallbacks.induct)
     (simp_all add: session_onToolCallsUpdate)

lemma session_executeToolsWithScheduler:
  "\<not> list_ex is_close_command its \<Longrightarrow>
     session (st (snd (executeToolsWithScheduler its en c))) = session (st c)"
  using session_schedulerCallbacks [of its "(c, {}, {})"] session_reportCompleted
  by (auto simp: executeToolsWithScheduler_def split: prod.splits SchedulerEnd.splits)

lemma active_runRound:
  assumes nc: "neverClosed (world (length (calls c)))" and a: "active c"
  shows "active (snd (runRound world client k n msg c))"
proof -
  let ?rnd = "world (length (calls c))"
  let ?c0 = "c\<lparr>calls := calls c @ [\<lparr>call_model = client, call_round = n, call_message = msg\<rparr>]\<rparr>"
  obtain sx c1 where f: "forAwait k (stream ?rnd) (streamEnd ?rnd) [] ?c0 = (sx, c1)"
    by (cases "forAwait k (stream ?rnd) (streamEnd ?rnd) [] ?c0")
  from nc have n1: "\<not> list_ex is_close_item (stream ?rnd)"
    and n2: "\<not> list_ex is_close_command (schedulerItems ?rnd)"
    by (simp_all add: neverClosed_def)
  from a have "active ?c0" by (simp add: active_def)
  from active_forAwait [OF n1 this, of k "streamEnd ?rnd" "[]"] f have a1: "active c1" by simp
  obtain r c2 where e: "executeToolsWithScheduler (schedulerItems ?rnd) (schedulerEnd ?rnd) c1 = (r, c2)"
    by (cases "executeToolsWithScheduler (schedulerItems ?rnd) (schedulerEnd ?rnd) c1")
  from session_executeToolsWithScheduler [OF n2, of "schedulerEnd ?rnd" c1] e a1
  have a2: "active c2" by (simp add: active_def)
  from f e a1 a2 show ?thesis
    by (cases sx; cases r) (simp_all add: runRound_def Let_def active_def)
qed

lemma runRound_restart_window:
  "runRound world client k n msg c = (Leave (LoopRestart w), c') \<Longrightarrow>
     w = closing (world (length (calls c)))"
  by (auto simp: runRound_def Let_def split: prod.splits StreamExit.splits if_splits sum.splits)

lemma turnLoop_active:
  "turnLoop world client k n msg c = (ex, c') \<Longrightarrow> \<forall>j. neverClosed (world j) \<Longrightarrow> active c \<Longrightarrow>
     active c' \<and> (\<forall>w. ex = LoopRestart w \<longrightarrow> \<not> list_ex is_close w)"
proof (induction world client k n msg c rule: turnLoop.induct)
  case (1 world client signal turnCount currentMessage c)
  show ?case
  proof (cases "turnCount < maxTurns")
    case False
    with "1.prems" show ?thesis
      by (auto simp: turnLoop.simps [of world client signal turnCount] active_def)
  next
    case True
    obtain rx c1 where r: "runRound world client signal (turnCount + 1) currentMessage c = (rx, c1)"
      by (cases "runRound world client signal (turnCount + 1) currentMessage c")
    from "1.prems"(2) have nc: "neverClosed (world (length (calls c)))" by simp
    from active_runRound [where world = world and c = c and client = client and k = signal
                            and n = "turnCount + 1" and msg = currentMessage,
                          OF nc "1.prems"(3)] r
    have a1: "active c1" by simp
    show ?thesis
    proof (cases rx)
      case (Continue parts)
      from "1.prems"(1) True r Continue
      have "turnLoop world client signal (turnCount + 1) parts c1 = (ex, c')"
        by (simp add: turnLoop.simps [of world client signal turnCount])
      from "1.IH" [OF True r [symmetric] Continue this "1.prems"(2) a1] show ?thesis .
    next
      case (Leave lx)
      with "1.prems"(1) True r have e: "ex = lx" "c' = c1"
        by (simp_all add: turnLoop.simps [of world client signal turnCount])
      have "\<forall>w. lx = LoopRestart w \<longrightarrow> \<not> list_ex is_close w"
      proof (intro allI impI)
        fix w assume "lx = LoopRestart w"
        with r Leave runRound_restart_window [of world client signal "turnCount + 1" currentMessage c w c1]
        have "w = closing (world (length (calls c)))" by simp
        with nc show "\<not> list_ex is_close w" by (simp add: neverClosed_def)
      qed
      with e a1 show ?thesis by simp
    qed
  qed
qed

lemma observerCommands_no_close:
  "\<not> list_ex is_close w \<Longrightarrow> session (observerCommands w s) = session s"
proof (induction w arbitrary: s)
  case Nil
  then show ?case by simp
next
  case (Cons cmd rest)
  then show ?case by (cases cmd) simp_all
qed

lemma restartTurn_active:
  assumes a: "active c" and nc: "\<not> list_ex is_close w"
  shows "\<exists>client k c'. restartTurn w c = (Inr (False, client, k), c') \<and> active c'"
proof -
  from a obtain sess where sess: "session (st c) = Some sess" by (auto simp: active_def)
  obtain k s1 where b: "beginTurn (st c) = (k, s1)" by (cases "beginTurn (st c)")
  from currentModelIndex_beginTurn [OF sess] b obtain sess1 where "session s1 = Some sess1" by auto
  with observerCommands_no_close [OF nc, of s1]
  have "session (observerCommands w s1) = Some sess1" by simp
  with sess b show ?thesis
    by (simp add: restartTurn_def prologue_def finallyBlock_def active_def setAbortController_def)
qed

lemma runTurn_returns:
  "\<forall>j. neverClosed (world j) \<Longrightarrow> active c \<Longrightarrow> fst (runTurn world message client k c) = Inr ()"
proof (induction world message client k c rule: runTurn.induct)
  case (1 world message client signal c)
  obtain lx c1 where t: "turnLoop world client signal 0 [TextPart message] c = (lx, c1)"
    by (cases "turnLoop world client signal 0 [TextPart message] c")
  from turnLoop_active [OF t "1.prems"] have a1: "active c1"
    and w: "\<forall>w. lx = LoopRestart w \<longrightarrow> \<not> list_ex is_close w" by simp_all
  show ?case
  proof (cases lx)
    case LoopReturned
    with t a1 finallyBlock_cleared [of c1] show ?thesis
      by (simp add: runTurn.simps [of world message client signal c])
  next
    case LoopMaxTurns
    with t a1 finallyBlock_cleared [of c1] show ?thesis
      by (simp add: runTurn.simps [of world message client signal c])
  next
    case (LoopRestart wd)
    with w have "\<not> list_ex is_close wd" by simp
    from restartTurn_active [OF a1 this]
    obtain client2 signal2 c2 where rt: "restartTurn wd c1 = (Inr (False, client2, signal2), c2)"
      and a2: "active c2" by blast
    from "1.IH"(1) [OF t [symmetric] LoopRestart rt [symmetric] refl refl refl "1.prems"(1) a2]
    have "fst (runTurn world message client2 signal2 c2) = Inr ()" .
    with t LoopRestart rt show ?thesis
      by (simp add: runTurn.simps [of world message client signal c] adopt_def)
  next
    case (LoopThrew e)
    obtain again c2 where cb: "catchBlock e signal c1 = (again, c2)"
      by (cases "catchBlock e signal c1")
    from active_catchBlock [OF a1, of e signal] cb have a2: "active c2" by simp
    show ?thesis
    proof (cases again)
      case False
      with t LoopThrew cb a2 finallyBlock_cleared [of c2] show ?thesis
        by (simp add: runTurn.simps [of world message client signal c])
    next
      case True
      from cb True have cb': "(True, c2) = catchBlock e signal c1" by simp
      from restartTurn_active [OF a2, of "[]"]
      obtain client2 signal2 c3 where rt: "restartTurn [] c2 = (Inr (False, client2, signal2), c3)"
        and a3: "active c3" by auto
      from "1.IH"(2) [OF t [symmetric] LoopThrew cb' refl rt [symmetric] refl refl refl "1.prems"(1) a3]
      have "fst (runTurn world message client2 signal2 c3) = Inr ()" .
      with t LoopThrew cb True rt show ?thesis
        by (simp add: runTurn.simps [of world message client signal c] adopt_def)
    qed
  qed
qed

definition close_during_stream_world :: World where
  "close_during_stream_world j = round_of [CloseRequest, Yield (Content (Some ''hello''))]"

lemma close_during_turn_throws:
  "sendMessage close_during_stream_world ''hi'' fresh_manager =
     (Inl nullSessionError,
      \<lparr>st = no_manager\<lparr>aborted := [True]\<rparr>, emitted = [cancelled],
       calls = [\<lparr>call_model = ''gemini-2.5-pro'', call_round = 1,
                 call_message = [TextPart ''hi'']\<rparr>]\<rparr>)"
  by code_simp

section \<open>What a completed call contributes\<close>

text \<open>The parts that one pass of the loop of lines 391 to 417 pushes for a completed
  call: its response parts when it has any, one fallback part otherwise. The next
  message holds them for every call of the completion list.\<close>

definition pushed :: "CompletedToolCall \<Rightarrow> Part list" where
  "pushed completedCall =
     (case responsePartsOf completedCall of
        Some parts \<Rightarrow> if length parts \<noteq> 0 then parts else [fallbackResponse completedCall]
      | None \<Rightarrow> [fallbackResponse completedCall])"

lemma buildToolResponseParts_acc:
  "buildToolResponseParts cs acc = acc @ concat (map pushed cs)"
  by (induction cs arbitrary: acc) (auto simp: pushed_def split: option.splits)

lemma buildToolResponseParts_holds:
  assumes "call \<in> set cs"
  shows "\<exists>before after. buildToolResponseParts cs [] = before @ pushed call @ after"
proof -
  from assms obtain xs ys where "cs = xs @ call # ys" by (auto simp: in_set_conv_decomp)
  then have "buildToolResponseParts cs [] =
               concat (map pushed xs) @ pushed call @ concat (map pushed ys)"
    by (simp add: buildToolResponseParts_acc)
  then show ?thesis by blast
qed


text \<open>A world whose first round requests two tools while the completion callback that
  resolves the promise reports one completed call: the next message then has one part
  for two requests (the code logs a warning, lines 419 to 425, and goes on).\<close>

definition one_completion_world :: World where
  "one_completion_world k =
     (if k = 0 then tool_round [read_request, shell_request] [succeeded_call]
      else round_of [Yield (Content (Some ''hello''))])"

lemma two_requests_one_response_part:
  "map call_message (calls (snd (sendMessage one_completion_world ''go'' fresh_manager))) =
     [[TextPart ''go''], [FunctionResponsePart ''read_file'' [(''output'', ''text'')]]]"
  by code_simp

section \<open>The confirmation slot\<close>





fun is_confirm_request :: "WebStreamEvent \<Rightarrow> bool" where
  "is_confirm_request (tool_confirm_request nm a d) = True"
| "is_confirm_request e = False"

definition confirmRequests :: "Ctx \<Rightarrow> nat" where
  "confirmRequests c = length (filter is_confirm_request (emitted c))"


definition pending :: "Ctx \<Rightarrow> ToolConfirmation option" where
  "pending c = pendingToolConfirmation (st c)"

lemma confirmRequests_onEvent [simp]:
  "confirmRequests (onEvent e c) = confirmRequests c + (if is_confirm_request e then 1 else 0)"
  by (simp add: confirmRequests_def onEvent_def)

lemma confirmRequests_st [simp]: "confirmRequests (c\<lparr>st := s\<rparr>) = confirmRequests c"
  by (simp add: confirmRequests_def)

lemma pending_onEvent [simp]: "pending (onEvent e c) = pending c"
  by (simp add: pending_def)









lemma pending_sent [simp]: "pending (sent event c) = pending c"
  by (simp add: sent_def split: option.splits)


section \<open>The stream calls of a turn\<close>

text \<open>Only the start of a round adds to the stream calls, and it adds one call with the
  round's number. A run of the loop from \<^verbatim>\<open>turnCount = 0\<close> therefore makes at most
  \<open>maxTurns\<close> calls, numbered from 1, and it makes all of them when it ends by running
  out of turns.\<close>

lemma calls_onEvent [simp]: "calls (onEvent e c) = calls c"
  by (simp add: onEvent_def)

lemma calls_sent [simp]: "calls (sent event c) = calls c"
  by (simp add: sent_def split: option.splits)

lemma calls_handleStreamError: "calls (snd (handleStreamError m c)) = calls c"
  by (simp add: handleStreamError_def Let_def split: prod.splits)

lemma calls_forAwait: "calls (snd (forAwait k its en reqs c)) = calls c"
proof (induction its arbitrary: reqs c)
  case Nil
  then show ?case by (simp split: StreamEnd.splits)
next
  case (Cons item rest)
  show ?case
  proof (cases item)
    case CancelRequest
    with Cons.IH [of reqs "c\<lparr>st := cancelCurrentRequest (st c)\<rparr>"] show ?thesis by simp
  next
    case CloseRequest
    with Cons.IH [of reqs "c\<lparr>st := closeSession (st c)\<rparr>"] show ?thesis by simp
  next
    case (Yield event)
    show ?thesis
    proof (cases "signal_aborted (st c) k")
      case True
      with Yield show ?thesis by simp
    next
      case False
      show ?thesis
      proof (cases "is_error_event event")
        case True
        then obtain msg str where e: "event = Error msg str" by (cases event) auto
        from calls_handleStreamError [of "if msg \<noteq> [] then msg else str" "sent event c"]
        show ?thesis
          unfolding Yield e forAwait_error [OF False] by simp
      next
        case other: False
        from Cons.IH [of "reqs @ collected event" "sent event c"] show ?thesis
          unfolding Yield forAwait_other [OF False other] by simp
      qed
    qed
  qed
qed

lemma calls_onToolCallsUpdate: "calls (fst (onToolCallsUpdate tcs x)) = calls (fst x)"
  by (induction tcs x rule: onToolCallsUpdate.induct) (simp_all add: Let_def split: option.splits)

lemma calls_reportCompleted: "calls (fst (reportCompleted cs x)) = calls (fst x)"
  by (induction cs x rule: reportCompleted.induct) (simp_all add: Let_def)

lemma calls_schedulerCallbacks: "calls (fst (schedulerCallbacks its x)) = calls (fst x)"
  by (induction its x rule: schedulerCallbacks.induct) (simp_all add: calls_onToolCallsUpdate)

lemma calls_executeToolsWithScheduler:
  "calls (snd (executeToolsWithScheduler its en c)) = calls c"
  using calls_schedulerCallbacks [of its "(c, {}, {})"] calls_reportCompleted
  by (auto simp: executeToolsWithScheduler_def split: prod.splits SchedulerEnd.splits)

lemma calls_runRound:
  "calls (snd (runRound world client k n msg c)) =
     calls c @ [\<lparr>call_model = client, call_round = n, call_message = msg\<rparr>]"
proof -
  let ?rnd = "world (length (calls c))"
  let ?c0 = "c\<lparr>calls := calls c @ [\<lparr>call_model = client, call_round = n, call_message = msg\<rparr>]\<rparr>"
  obtain sx c1 where f: "forAwait k (stream ?rnd) (streamEnd ?rnd) [] ?c0 = (sx, c1)"
    by (cases "forAwait k (stream ?rnd) (streamEnd ?rnd) [] ?c0")
  from calls_forAwait [of k "stream ?rnd" "streamEnd ?rnd" "[]" ?c0] f
  have c1: "calls c1 = calls ?c0" by simp
  obtain r c2 where e: "executeToolsWithScheduler (schedulerItems ?rnd) (schedulerEnd ?rnd) c1 = (r, c2)"
    by (cases "executeToolsWithScheduler (schedulerItems ?rnd) (schedulerEnd ?rnd) c1")
  from calls_executeToolsWithScheduler [of "schedulerItems ?rnd" "schedulerEnd ?rnd" c1] e
  have c2: "calls c2 = calls c1" by simp
  from f e c1 c2 show ?thesis
    by (cases sx; cases r) (simp_all add: runRound_def Let_def)
qed

lemma runRound_not_MaxTurns:
  "runRound world client k n msg c \<noteq> (Leave LoopMaxTurns, c')"
  by (auto simp: runRound_def Let_def split: prod.splits StreamExit.splits if_splits sum.splits)

lemma turnLoop_calls:
  "turnLoop world client k n msg c = (ex, c') \<Longrightarrow>
     \<exists>new. calls c' = calls c @ new \<and> length new \<le> maxTurns - n
       \<and> (\<forall>i < length new. call_round (new ! i) = n + i + 1)
       \<and> (ex = LoopMaxTurns \<longrightarrow>
            length new = maxTurns - n
            \<and> (\<exists>es. emitted c' = es @ [error ''Maximum conversation turns exceeded'']))"
proof (induction world client k n msg c rule: turnLoop.induct)
  case (1 world client signal turnCount currentMessage c)
  show ?case
  proof (cases "turnCount < maxTurns")
    case False
    with "1.prems" have "ex = LoopMaxTurns"
      and "c' = onEvent (error ''Maximum conversation turns exceeded'') c"
      by (simp_all add: turnLoop.simps [of world client signal turnCount])
    with False show ?thesis by (simp add: onEvent_def)
  next
    case True
    obtain rx c1 where r: "runRound world client signal (turnCount + 1) currentMessage c = (rx, c1)"
      by (cases "runRound world client signal (turnCount + 1) currentMessage c")
    let ?call = "\<lparr>call_model = client, call_round = turnCount + 1, call_message = currentMessage\<rparr>"
    from calls_runRound [of world client signal "turnCount + 1" currentMessage c] r
    have c1: "calls c1 = calls c @ [?call]" by simp
    show ?thesis
    proof (cases rx)
      case (Leave lx)
      with "1.prems" True r have "ex = lx" "c' = c1"
        by (simp_all add: turnLoop.simps [of world client signal turnCount])
      moreover from r Leave runRound_not_MaxTurns [of world client signal "turnCount + 1" currentMessage c c1]
      have "lx \<noteq> LoopMaxTurns" by auto
      ultimately show ?thesis using c1 True
        by (intro exI [of _ "[?call]"]) simp
    next
      case (Continue parts)
      from "1.prems" True r Continue
      have t: "turnLoop world client signal (turnCount + 1) parts c1 = (ex, c')"
        by (simp add: turnLoop.simps [of world client signal turnCount])
      from "1.IH" [OF True r [symmetric] Continue t]
      obtain new where n1: "calls c' = calls c1 @ new"
        and n2: "length new \<le> maxTurns - (turnCount + 1)"
        and n3: "\<forall>i < length new. call_round (new ! i) = turnCount + 1 + i + 1"
        and n4: "ex = LoopMaxTurns \<longrightarrow>
            length new = maxTurns - (turnCount + 1)
            \<and> (\<exists>es. emitted c' = es @ [error ''Maximum conversation turns exceeded''])"
        by blast
      have a: "calls c' = calls c @ (?call # new)" using n1 c1 by simp
      have b: "length (?call # new) \<le> maxTurns - turnCount" using n2 True by simp
      have d: "\<forall>i < length (?call # new). call_round ((?call # new) ! i) = turnCount + i + 1"
      proof (intro allI impI)
        fix i assume "i < length (?call # new)"
        then show "call_round ((?call # new) ! i) = turnCount + i + 1"
          using n3 by (cases i) simp_all
      qed
      have e: "ex = LoopMaxTurns \<longrightarrow>
            length (?call # new) = maxTurns - turnCount
            \<and> (\<exists>es. emitted c' = es @ [error ''Maximum conversation turns exceeded''])"
        using n4 True by auto
      from a b d e show ?thesis by blast
    qed
  qed
qed

lemma calls_catchBlock: "calls (snd (catchBlock e k c)) = calls c"
  by (simp add: catchBlock_def Let_def split: prod.splits)

lemma calls_finallyBlock [simp]: "calls (snd (finallyBlock c)) = calls c"
  by (simp add: finallyBlock_def split: option.splits)

lemma calls_restartTurn [simp]: "calls (snd (restartTurn w c)) = calls c"
  by (auto simp: restartTurn_def prologue_def finallyBlock_def
           split: option.splits prod.splits sum.splits)

lemma calls_adopt [simp]: "calls (snd (adopt b x)) = calls (snd x)"
  by (simp add: adopt_def)

text \<open>A stream call whose round number is between 1 and \<open>maxTurns\<close>.\<close>

definition round_in_budget :: "StreamCall \<Rightarrow> bool" where
  "round_in_budget call = (1 \<le> call_round call \<and> call_round call \<le> maxTurns)"

lemma turnLoop_calls_budget:
  assumes "turnLoop world client k 0 msg c = (ex, c')"
  shows "\<exists>new. calls c' = calls c @ new \<and> length new \<le> maxTurns
           \<and> list_all round_in_budget new"
proof -
  from turnLoop_calls [OF assms]
  obtain new where n1: "calls c' = calls c @ new" and n2: "length new \<le> maxTurns"
    and n3: "\<forall>i < length new. call_round (new ! i) = 0 + i + 1"
    by auto
  have "list_all round_in_budget new"
    unfolding list_all_length round_in_budget_def using n2 n3 by auto
  with n1 n2 show ?thesis by blast
qed

lemma runTurn_calls:
  "\<exists>new. calls (snd (runTurn world message client k c)) = calls c @ new
      \<and> list_all round_in_budget new
      \<and> length new \<le> maxTurns * Suc (switchesLeft c)"
proof (induction world message client k c rule: runTurn.induct)
  case (1 world message client signal c)
  obtain lx c1 where t: "turnLoop world client signal 0 [TextPart message] c = (lx, c1)"
    by (cases "turnLoop world client signal 0 [TextPart message] c")
  from turnLoop_calls_budget [OF t]
  obtain new1 where n1: "calls c1 = calls c @ new1" and n2: "length new1 \<le> maxTurns"
    and n3: "list_all round_in_budget new1"
    by auto
  have step: "length (new1 @ new2) \<le> maxTurns * Suc (switchesLeft c)"
    if "switchesLeft c2 < switchesLeft c"
      and "length new2 \<le> maxTurns * Suc (switchesLeft c2)"
    for c2 and new2 :: "StreamCall list"
  proof -
    from that(1) have "Suc (Suc (switchesLeft c2)) \<le> Suc (switchesLeft c)" by simp
    then have "maxTurns * Suc (Suc (switchesLeft c2)) \<le> maxTurns * Suc (switchesLeft c)"
      by (rule mult_le_mono2)
    with that(2) n2 show ?thesis by simp
  qed
  have stop: "length new1 \<le> maxTurns * Suc (switchesLeft c)"
    using n2 by simp
  show ?case
  proof (cases lx)
    case LoopReturned
    with t n1 n3 stop show ?thesis
      by (simp add: runTurn.simps [of world message client signal c])
  next
    case LoopMaxTurns
    with t n1 n3 stop show ?thesis
      by (simp add: runTurn.simps [of world message client signal c])
  next
    case (LoopRestart w)
    obtain r c2 where rt: "restartTurn w c1 = (r, c2)" by (cases "restartTurn w c1")
    from calls_restartTurn [of w c1] rt have k2: "calls c2 = calls c1" by simp
    from turnLoop_session [OF t] LoopRestart have "advanced c c1" by simp
    from advanced_switchesLeft [OF this] restartTurn_switchesLeft [OF rt]
    have less: "switchesLeft c2 < switchesLeft c" by simp
    show ?thesis
    proof (cases r)
      case (Inl e)
      with t LoopRestart rt n1 n3 stop k2 show ?thesis
        by (simp add: runTurn.simps [of world message client signal c])
    next
      case (Inr x)
      obtain callerThrew client2 signal2 where x: "x = (callerThrew, client2, signal2)"
        by (cases x)
      from Inr x have r: "r = Inr (callerThrew, client2, signal2)" by simp
      from "1.IH"(1) [OF t [symmetric] LoopRestart rt [symmetric] r refl refl]
      obtain new2 where m1: "calls (snd (runTurn world message client2 signal2 c2)) = calls c2 @ new2"
        and m2: "list_all round_in_budget new2"
        and m3: "length new2 \<le> maxTurns * Suc (switchesLeft c2)"
        by blast
      from t LoopRestart rt r
      have "runTurn world message client signal c
              = adopt callerThrew (runTurn world message client2 signal2 c2)"
        by (simp add: runTurn.simps [of world message client signal c])
      with m1 m2 n1 n3 k2 step [OF less m3] show ?thesis
        by (intro exI [of _ "new1 @ new2"]) simp
    qed
  next
    case (LoopThrew e)
    obtain again c2 where cb: "catchBlock e signal c1 = (again, c2)"
      by (cases "catchBlock e signal c1")
    from calls_catchBlock [of e signal c1] cb have k2: "calls c2 = calls c1" by simp
    show ?thesis
    proof (cases again)
      case False
      with t LoopThrew cb n1 n3 stop k2 show ?thesis
        by (simp add: runTurn.simps [of world message client signal c])
    next
      case True
      from cb True have cb': "(True, c2) = catchBlock e signal c1" by simp
      obtain r c3 where rt: "restartTurn [] c2 = (r, c3)" by (cases "restartTurn [] c2")
      from calls_restartTurn [of "[]" c2] rt have k3: "calls c3 = calls c2" by simp
      from turnLoop_session [OF t] LoopThrew have "kept c c1" by simp
      moreover from catchBlock_session [OF cb] True have "advanced c1 c2" by simp
      ultimately have "advanced c c2" by (rule kept_advanced)
      from advanced_switchesLeft [OF this] restartTurn_switchesLeft [OF rt]
      have less: "switchesLeft c3 < switchesLeft c" by simp
      show ?thesis
      proof (cases r)
        case (Inl e2)
        with t LoopThrew cb True rt n1 n3 stop k2 k3 show ?thesis
          by (simp add: runTurn.simps [of world message client signal c])
      next
        case (Inr x)
        obtain callerThrew client2 signal2 where x: "x = (callerThrew, client2, signal2)"
          by (cases x)
        from Inr x have r: "r = Inr (callerThrew, client2, signal2)" by simp
        from "1.IH"(2) [OF t [symmetric] LoopThrew cb' refl rt [symmetric] r refl refl]
        obtain new2 where m1: "calls (snd (runTurn world message client2 signal2 c3)) = calls c3 @ new2"
          and m2: "list_all round_in_budget new2"
          and m3: "length new2 \<le> maxTurns * Suc (switchesLeft c3)"
          by blast
        from t LoopThrew cb True rt r
        have "runTurn world message client signal c
                = adopt callerThrew (runTurn world message client2 signal2 c3)"
          by (simp add: runTurn.simps [of world message client signal c])
        with m1 m2 n1 n3 k2 k3 step [OF less m3] show ?thesis
          by (intro exI [of _ "new1 @ new2"]) simp
      qed
    qed
  qed
qed

lemma switchesLeft_bound: "Suc (switchesLeft c) \<le> length MODEL_FALLBACK_CHAIN"
  by (simp add: switchesLeft_def MODEL_FALLBACK_CHAIN_def split: option.splits)

section \<open>A model that requests tools in every round\<close>

text \<open>The terminal observer events are \<open>finished\<close>, \<open>cancelled\<close> and \<open>error\<close>. A round
  requests tools when its stream yields events other than Error, at least one of them a
  tool-call request, and ends, nobody cancels or closes, and the scheduler completes.
  \<open>requested\<close> lists the requests of a stream in the order they are yielded.\<close>

fun is_terminal :: "WebStreamEvent \<Rightarrow> bool" where
  "is_terminal finished = True"
| "is_terminal cancelled = True"
| "is_terminal (error m) = True"
| "is_terminal e = False"

definition terminals :: "Ctx \<Rightarrow> WebStreamEvent list" where
  "terminals c = filter is_terminal (emitted c)"

fun plain_item :: "StreamItem \<Rightarrow> bool" where
  "plain_item CancelRequest = False"
| "plain_item CloseRequest = False"
| "plain_item (Yield (Error m s)) = False"
| "plain_item (Yield e) = True"

fun requested :: "StreamItem list \<Rightarrow> ToolCallRequestInfo list" where
  "requested [] = []"
| "requested (Yield (ToolCallRequest r) # rest) = r # requested rest"
| "requested (x # rest) = requested rest"

fun is_cancel_command :: "SchedulerItem \<Rightarrow> bool" where
  "is_cancel_command CancelCommand = True"
| "is_cancel_command i = False"

definition requestsTools :: "Round \<Rightarrow> bool" where
  "requestsTools rnd =
     (list_all plain_item (stream rnd)
      \<and> requested (stream rnd) \<noteq> []
      \<and> streamEnd rnd = StreamDone
      \<and> \<not> list_ex is_cancel_command (schedulerItems rnd)
      \<and> \<not> list_ex is_close_command (schedulerItems rnd)
      \<and> (case schedulerEnd rnd of AllToolCallsComplete cs \<Rightarrow> True | ScheduleRejected e \<Rightarrow> False))"

lemma terminals_onEvent [simp]:
  "terminals (onEvent e c) = terminals c @ (if is_terminal e then [e] else [])"
  by (simp add: terminals_def onEvent_def)

lemma terminals_st [simp]: "terminals (c\<lparr>st := s\<rparr>) = terminals c"
  by (simp add: terminals_def)

lemma terminals_calls [simp]: "terminals (c\<lparr>calls := x\<rparr>) = terminals c"
  by (simp add: terminals_def)

lemma terminals_sent_plain:
  "plain_item (Yield event) \<Longrightarrow> terminals (sent event c) = terminals c"
  by (cases event) (simp_all add: sent_def)

lemma requested_Yield:
  "\<not> is_error_event event \<Longrightarrow> requested (Yield event # rest) = collected event @ requested rest"
  by (cases event) simp_all

lemma forAwait_plain:
  "list_all plain_item its \<Longrightarrow> \<not> signal_aborted (st c) k \<Longrightarrow>
     fst (forAwait k its StreamDone reqs c) = Completed (reqs @ requested its)
     \<and> st (snd (forAwait k its StreamDone reqs c)) = st c
     \<and> terminals (snd (forAwait k its StreamDone reqs c)) = terminals c"
proof (induction its arbitrary: reqs c)
  case Nil
  then show ?case by simp
next
  case (Cons item rest)
  from Cons.prems obtain event where y: "item = Yield event" and pl: "plain_item (Yield event)"
    and rest: "list_all plain_item rest"
    by (cases item) auto
  from pl have other: "\<not> is_error_event event" by (cases event) auto
  note na = Cons.prems(2)
  from na have na1: "\<not> signal_aborted (st (sent event c)) k" by simp
  from Cons.IH [OF rest na1, of "reqs @ collected event"] terminals_sent_plain [OF pl, of c]
       requested_Yield [OF other, of rest]
  show ?case
    unfolding y forAwait_other [OF na other] by simp
qed

lemma frame_onToolCallsUpdate:
  "aborted (st (fst (onToolCallsUpdate tcs x))) = aborted (st (fst x))
   \<and> terminals (fst (onToolCallsUpdate tcs x)) = terminals (fst x)"
  by (induction tcs x rule: onToolCallsUpdate.induct) (simp_all add: Let_def split: option.splits)

lemma frame_reportCompleted:
  "st (fst (reportCompleted cs x)) = st (fst x)
   \<and> terminals (fst (reportCompleted cs x)) = terminals (fst x)"
  by (induction cs x rule: reportCompleted.induct) (simp_all add: Let_def)

lemma aborted_confirmTool [simp]: "aborted (fst (confirmTool b s)) = aborted s"
  by (simp add: confirmTool_def split: option.splits)

lemma terminals_schedulerCallbacks:
  "terminals (fst (schedulerCallbacks its x)) = terminals (fst x)"
  by (induction its x rule: schedulerCallbacks.induct)
     (simp_all add: frame_onToolCallsUpdate)

lemma aborted_schedulerCallbacks:
  "\<not> list_ex is_cancel_command its \<Longrightarrow> \<not> list_ex is_close_command its \<Longrightarrow>
     aborted (st (fst (schedulerCallbacks its x))) = aborted (st (fst x))"
  by (induction its x rule: schedulerCallbacks.induct)
     (simp_all add: frame_onToolCallsUpdate)

lemma executeToolsWithScheduler_completes:
  "\<not> list_ex is_cancel_command its \<Longrightarrow> \<not> list_ex is_close_command its \<Longrightarrow>
     fst (executeToolsWithScheduler its (AllToolCallsComplete cs) c) = Inr cs
     \<and> aborted (st (snd (executeToolsWithScheduler its (AllToolCallsComplete cs) c))) = aborted (st c)
     \<and> terminals (snd (executeToolsWithScheduler its (AllToolCallsComplete cs) c)) = terminals c"
  using aborted_schedulerCallbacks [of its "(c, {}, {})"]
        terminals_schedulerCallbacks [of its "(c, {}, {})"]
        frame_reportCompleted [of cs]
  by (auto simp: executeToolsWithScheduler_def split: prod.splits)

lemma runRound_requestsTools:
  assumes rt: "requestsTools (world (length (calls c)))"
    and na: "\<not> signal_aborted (st c) k"
    and ac: "active c"
  shows "\<exists>parts c'. runRound world client k n msg c = (Continue parts, c')
           \<and> \<not> signal_aborted (st c') k \<and> active c' \<and> terminals c' = terminals c"
proof -
  let ?rnd = "world (length (calls c))"
  let ?c0 = "c\<lparr>calls := calls c @ [\<lparr>call_model = client, call_round = n, call_message = msg\<rparr>]\<rparr>"
  from rt have pl: "list_all plain_item (stream ?rnd)" and rq: "requested (stream ?rnd) \<noteq> []"
    and se: "streamEnd ?rnd = StreamDone"
    and nc: "\<not> list_ex is_cancel_command (schedulerItems ?rnd)"
    and ncl: "\<not> list_ex is_close_command (schedulerItems ?rnd)"
    by (simp_all add: requestsTools_def)
  from rt obtain cs where en: "schedulerEnd ?rnd = AllToolCallsComplete cs"
    by (auto simp: requestsTools_def split: SchedulerEnd.splits)
  from na have na0: "\<not> signal_aborted (st ?c0) k" by simp
  obtain sx c1 where f: "forAwait k (stream ?rnd) StreamDone [] ?c0 = (sx, c1)"
    by (cases "forAwait k (stream ?rnd) StreamDone [] ?c0")
  from forAwait_plain [OF pl na0, of "[]"] f
  have sx: "sx = Completed (requested (stream ?rnd))" and s1: "st c1 = st c"
    and t1: "terminals c1 = terminals c"
    by simp_all
  obtain r c2 where e: "executeToolsWithScheduler (schedulerItems ?rnd) (AllToolCallsComplete cs) c1 = (r, c2)"
    by (cases "executeToolsWithScheduler (schedulerItems ?rnd) (AllToolCallsComplete cs) c1")
  from executeToolsWithScheduler_completes [OF nc ncl, of cs c1] e
  have r: "r = Inr cs" and a2: "aborted (st c2) = aborted (st c1)"
    and t2: "terminals c2 = terminals c1"
    by simp_all
  from session_executeToolsWithScheduler [OF ncl, of "AllToolCallsComplete cs" c1] e s1 ac
  have ac2: "active c2" by (simp add: active_def)
  from f e sx r rq se en
  have "runRound world client k n msg c = (Continue (buildToolResponseParts cs []), c2)"
    by (simp add: runRound_def Let_def)
  moreover from a2 s1 na have "\<not> signal_aborted (st c2) k"
    by (simp add: signal_aborted_def)
  ultimately show ?thesis using t1 t2 ac2 by auto
qed

lemma turnLoop_exhausts:
  "\<forall>j. requestsTools (world j) \<Longrightarrow> \<not> signal_aborted (st c) k \<Longrightarrow> active c \<Longrightarrow>
     \<exists>c'. turnLoop world client k n msg c = (LoopMaxTurns, c') \<and> active c'
        \<and> terminals c' = terminals c @ [error ''Maximum conversation turns exceeded'']"
proof (induction world client k n msg c rule: turnLoop.induct)
  case (1 world client signal turnCount currentMessage c)
  show ?case
  proof (cases "turnCount < maxTurns")
    case False
    with "1.prems"(3) show ?thesis
      by (simp add: turnLoop.simps [of world client signal turnCount] active_def)
  next
    case True
    from "1.prems"(1) have "requestsTools (world (length (calls c)))" by simp
    from runRound_requestsTools
           [where world = world and c = c and k = signal and client = client
              and n = "turnCount + 1" and msg = currentMessage, OF this "1.prems"(2) "1.prems"(3)]
    obtain parts c1 where r: "runRound world client signal (turnCount + 1) currentMessage c
                                 = (Continue parts, c1)"
      and na: "\<not> signal_aborted (st c1) signal" and a1: "active c1"
      and t1: "terminals c1 = terminals c"
      by blast
    from "1.IH" [OF True r [symmetric] refl "1.prems"(1) na a1]
    obtain c' where "turnLoop world client signal (turnCount + 1) parts c1 = (LoopMaxTurns, c')"
      and "active c'"
      and "terminals c' = terminals c1 @ [error ''Maximum conversation turns exceeded'']"
      by blast
    with True r t1 show ?thesis
      by (simp add: turnLoop.simps [of world client signal turnCount])
  qed
qed

definition tools_forever_world :: World where
  "tools_forever_world j = tool_round [read_request] [succeeded_call]"

lemma beginTurn_fresh:
  "fst (beginTurn s) = length (aborted s)
   \<and> aborted (snd (beginTurn s)) = aborted s @ [False]
   \<and> session (snd (beginTurn s)) =
       (case session s of
          None \<Rightarrow> None
        | Some sess \<Rightarrow> Some (sess\<lparr>abortController := Some (length (aborted s))\<rparr>))"
  by (simp add: beginTurn_def newAbortController_def setAbortController_def split: option.splits)

lemma beginTurn_unfired: "\<not> signal_aborted (snd (beginTurn s)) (fst (beginTurn s))"
  by (simp add: beginTurn_fresh signal_aborted_def nth_append)

lemma terminals_finallyBlock [simp]: "terminals (snd (finallyBlock c)) = terminals c"
  by (simp add: finallyBlock_def split: option.splits)

lemma emitted_finallyBlock [simp]: "emitted (snd (finallyBlock c)) = emitted c"
  by (simp add: finallyBlock_def split: option.splits)

lemma sendMessage_exhausts:
  assumes sess: "session s = Some sess" and rt: "\<forall>j. requestsTools (world j)"
  shows "fst (sendMessage world message s) = Inr ()
     \<and> length (calls (snd (sendMessage world message s))) = maxTurns
     \<and> terminals (snd (sendMessage world message s)) =
         [error ''Maximum conversation turns exceeded'']
     \<and> last (emitted (snd (sendMessage world message s))) =
         error ''Maximum conversation turns exceeded''"
proof -
  obtain k s1 where b: "beginTurn s = (k, s1)" by (cases "beginTurn s")
  let ?c0 = "\<lparr>st = s1, emitted = [], calls = []\<rparr>"
  from sess b have p: "prologue s = Inr (model (config sess), k, s1)"
    by (simp add: prologue_def)
  from beginTurn_unfired [of s] b have na: "\<not> signal_aborted (st ?c0) k" by simp
  from sess b beginTurn_fresh [of s] have ac: "active ?c0" by (simp add: active_def)
  from turnLoop_exhausts [OF rt na ac, of "model (config sess)" 0 "[TextPart message]"]
  obtain c1 where t: "turnLoop world (model (config sess)) k 0 [TextPart message] ?c0
                        = (LoopMaxTurns, c1)"
    and a1: "active c1"
    and te: "terminals c1 = terminals ?c0 @ [error ''Maximum conversation turns exceeded'']"
    by blast
  from turnLoop_calls [OF t]
  obtain new es where "calls c1 = calls ?c0 @ new" and "length new = maxTurns - 0"
    and "emitted c1 = es @ [error ''Maximum conversation turns exceeded'']"
    by auto
  moreover from p t
  have "sendMessage world message s = finallyBlock c1"
    unfolding sendMessage_def
    by (simp add: runTurn.simps [of world message "model (config sess)" k ?c0])
  moreover from a1 finallyBlock_cleared [of c1] have "fst (finallyBlock c1) = Inr ()"
    by (auto simp: finallyBlock_def active_def)
  ultimately show ?thesis using te by (simp add: terminals_def)
qed

section \<open>The last event of a turn\<close>

text \<open>\<^verbatim>\<open>sendMessage\<close> on an active session never settles without a terminal event: the
  last event it has sent is \<open>finished\<close>, \<open>cancelled\<close> or \<open>error\<close>.\<close>

definition ends_terminal :: "Ctx \<Rightarrow> bool" where
  "ends_terminal c = (emitted c \<noteq> [] \<and> is_terminal (last (emitted c)))"

lemma ends_terminal_onEvent [simp]: "ends_terminal (onEvent e c) = is_terminal e"
  by (simp add: ends_terminal_def onEvent_def)

lemma ends_terminal_st [simp]: "ends_terminal (c\<lparr>st := s\<rparr>) = ends_terminal c"
  by (simp add: ends_terminal_def)

lemma handleStreamError_Returned:
  "handleStreamError m c = (Returned, c') \<Longrightarrow> ends_terminal c'"
  by (auto simp: handleStreamError_def Let_def split: prod.splits if_splits)

lemma forAwait_Returned:
  "forAwait k its en reqs c = (Returned, c') \<Longrightarrow> ends_terminal c'"
proof (induction its arbitrary: reqs c)
  case Nil
  then show ?case by (auto split: StreamEnd.splits)
next
  case (Cons item rest)
  show ?case
  proof (cases item)
    case CancelRequest
    with Cons show ?thesis by simp
  next
    case CloseRequest
    with Cons show ?thesis by simp
  next
    case (Yield event)
    show ?thesis
    proof (cases "signal_aborted (st c) k")
      case True
      with Cons.prems Yield show ?thesis by auto
    next
      case False
      show ?thesis
      proof (cases "is_error_event event")
        case True
        then obtain msg str where e: "event = Error msg str" by (cases event) auto
        have "handleStreamError (if msg \<noteq> [] then msg else str) (sent event c) = (Returned, c')"
          using Cons.prems [unfolded Yield e] unfolding e forAwait_error [OF False] .
        then show ?thesis by (rule handleStreamError_Returned)
      next
        case other: False
        have "forAwait k rest en (reqs @ collected event) (sent event c) = (Returned, c')"
          using Cons.prems [unfolded Yield] unfolding forAwait_other [OF False other] .
        then show ?thesis by (rule Cons.IH)
      qed
    qed
  qed
qed

lemma runRound_Returned:
  "runRound world client k n msg c = (Leave LoopReturned, c') \<Longrightarrow> ends_terminal c'"
  by (auto simp: runRound_def Let_def
           split: prod.splits StreamExit.splits if_splits sum.splits
           dest: forAwait_Returned)

lemma turnLoop_ends_terminal:
  "turnLoop world client k n msg c = (ex, c') \<Longrightarrow> ex = LoopReturned \<or> ex = LoopMaxTurns \<Longrightarrow>
     ends_terminal c'"
proof (induction world client k n msg c rule: turnLoop.induct)
  case (1 world client signal turnCount currentMessage c)
  show ?case
  proof (cases "turnCount < maxTurns")
    case False
    with "1.prems" show ?thesis
      by (auto simp: turnLoop.simps [of world client signal turnCount])
  next
    case True
    obtain rx c1 where r: "runRound world client signal (turnCount + 1) currentMessage c = (rx, c1)"
      by (cases "runRound world client signal (turnCount + 1) currentMessage c")
    show ?thesis
    proof (cases rx)
      case (Continue parts)
      with "1.prems" True r
      have "turnLoop world client signal (turnCount + 1) parts c1 = (ex, c')"
        by (simp add: turnLoop.simps [of world client signal turnCount])
      from "1.IH" [OF True r [symmetric] Continue this "1.prems"(2)] show ?thesis .
    next
      case (Leave lx)
      with "1.prems" True r have e: "ex = lx" "c' = c1"
        by (simp_all add: turnLoop.simps [of world client signal turnCount])
      from r Leave runRound_not_MaxTurns [of world client signal "turnCount + 1" currentMessage c c1]
      have "lx \<noteq> LoopMaxTurns" by auto
      with e "1.prems"(2) have "lx = LoopReturned" by simp
      with r Leave e runRound_Returned show ?thesis by blast
    qed
  qed
qed

lemma catchBlock_ends_terminal:
  "catchBlock e k c = (False, c') \<Longrightarrow> ends_terminal c'"
  by (auto simp: catchBlock_def Let_def split: prod.splits if_splits)

lemma ends_terminal_finallyBlock [simp]:
  "ends_terminal (snd (finallyBlock c)) = ends_terminal c"
  by (simp add: finallyBlock_def split: option.splits)

lemma ends_terminal_adopt [simp]: "ends_terminal (snd (adopt b x)) = ends_terminal (snd x)"
  by (simp add: adopt_def)

lemma restartTurn_emitted [simp]: "emitted (snd (restartTurn w c)) = emitted c"
  by (auto simp: restartTurn_def prologue_def finallyBlock_def
           split: option.splits prod.splits sum.splits)

lemma restartTurn_advanced:
  "advanced c c1 \<Longrightarrow> \<exists>callerThrew client2 signal2 c2.
      restartTurn w c1 = (Inr (callerThrew, client2, signal2), c2)"
  by (auto simp: advanced_def restartTurn_def prologue_def split: prod.splits sum.splits)

lemma runTurn_ends_terminal:
  "ends_terminal (snd (runTurn world message client k c))"
proof (induction world message client k c rule: runTurn.induct)
  case (1 world message client signal c)
  obtain lx c1 where t: "turnLoop world client signal 0 [TextPart message] c = (lx, c1)"
    by (cases "turnLoop world client signal 0 [TextPart message] c")
  show ?case
  proof (cases lx)
    case LoopReturned
    with t turnLoop_ends_terminal [OF t] show ?thesis
      by (simp add: runTurn.simps [of world message client signal c])
  next
    case LoopMaxTurns
    with t turnLoop_ends_terminal [OF t] show ?thesis
      by (simp add: runTurn.simps [of world message client signal c])
  next
    case (LoopRestart w)
    from turnLoop_session [OF t] LoopRestart have "advanced c c1" by simp
    from restartTurn_advanced [OF this, of w]
    obtain callerThrew client2 signal2 c2
      where rt: "restartTurn w c1 = (Inr (callerThrew, client2, signal2), c2)"
      by blast
    from "1.IH"(1) [OF t [symmetric] LoopRestart rt [symmetric] refl refl refl]
    have "ends_terminal (snd (runTurn world message client2 signal2 c2))" .
    with t LoopRestart rt show ?thesis
      by (simp add: runTurn.simps [of world message client signal c])
  next
    case (LoopThrew e)
    obtain again c2 where cb: "catchBlock e signal c1 = (again, c2)"
      by (cases "catchBlock e signal c1")
    show ?thesis
    proof (cases again)
      case False
      with cb have "catchBlock e signal c1 = (False, c2)" by simp
      then have "ends_terminal c2" by (rule catchBlock_ends_terminal)
      with t LoopThrew cb False show ?thesis
        by (simp add: runTurn.simps [of world message client signal c])
    next
      case True
      with catchBlock_session [OF cb] have "advanced c1 c2" by simp
      from restartTurn_advanced [OF this, of "[]"]
      obtain callerThrew client2 signal2 c3
        where rt: "restartTurn [] c2 = (Inr (callerThrew, client2, signal2), c3)"
        by blast
      from cb True have cb': "(True, c2) = catchBlock e signal c1" by simp
      from "1.IH"(2) [OF t [symmetric] LoopThrew cb' refl rt [symmetric] refl refl refl]
      have "ends_terminal (snd (runTurn world message client2 signal2 c3))" .
      with t LoopThrew cb True rt show ?thesis
        by (simp add: runTurn.simps [of world message client signal c])
    qed
  qed
qed

lemma sendMessage_ends_with_terminal_event:
  "session s \<noteq> None \<Longrightarrow>
     emitted (snd (sendMessage world message s)) \<noteq> []
     \<and> is_terminal (last (emitted (snd (sendMessage world message s))))"
  using runTurn_ends_terminal
  by (auto simp: sendMessage_def prologue_def ends_terminal_def split: prod.splits)

section \<open>Cancelling\<close>

text \<open>\<^verbatim>\<open>cancelCurrentRequest\<close> twice is \<^verbatim>\<open>cancelCurrentRequest\<close> once; it does nothing without
  a session or without a controller in the session's field; with a controller there it
  fires that controller's signal; and a stream event observed after the turn's signal
  has fired ends the turn with \<open>cancelled\<close>, the event and the rest of the stream
  unprocessed.\<close>

lemma cancelCurrentRequest_idempotent:
  "cancelCurrentRequest (cancelCurrentRequest s) = cancelCurrentRequest s"
  by (simp add: cancelCurrentRequest_def split: option.splits)

lemma cancelCurrentRequest_no_turn:
  "session s = None \<or> (\<exists>sess. session s = Some sess \<and> abortController sess = None) \<Longrightarrow>
     cancelCurrentRequest s = s"
  by (auto simp: cancelCurrentRequest_def)

lemma cancelCurrentRequest_fires:
  "session s = Some sess \<Longrightarrow> abortController sess = Some k \<Longrightarrow> k < length (aborted s) \<Longrightarrow>
     signal_aborted (cancelCurrentRequest s) k"
  by (simp add: cancelCurrentRequest_def signal_aborted_def)

lemma forAwait_cancelled:
  "signal_aborted (st c) k \<Longrightarrow>
     forAwait k (Yield event # rest) en reqs c = (Returned, onEvent cancelled c)"
  by (rule forAwait_aborted)

section \<open>The controller field after a call\<close>

text \<open>After \<^verbatim>\<open>sendMessage\<close> a session that is there has null in its controller field, and
  a call that has returned has left a session.\<close>

lemma sendMessage_cleared:
  "cleared (snd (sendMessage world message s))
   \<and> (fst (sendMessage world message s) = Inr ()
        \<longrightarrow> active (snd (sendMessage world message s)))"
proof (cases "prologue s")
  case (Inl e)
  then have "session s = None"
    by (auto simp: prologue_def split: option.splits prod.splits)
  with Inl show ?thesis by (simp add: sendMessage_def cleared_def)
next
  case (Inr r)
  then obtain client k s1 where p: "prologue s = Inr (client, k, s1)" by (cases r) auto
  from runTurn_cleared [of world message client k "\<lparr>st = s1, emitted = [], calls = []\<rparr>"] p
  show ?thesis by (simp add: sendMessage_def)
qed

section \<open>Properties of the event transform\<close>

text \<open>
  Claim C7, as stated, has the transform send every kind of event outside the five it
  lists (Content, Thought, ToolCallRequest, Error, ChatCompressed) to none. The code has
  two more arms: a \<^verbatim>\<open>ToolCallResponse\<close> event is mapped to a \<open>tool_result\<close> event, so the
  claim fails at such an event.
\<close>

theorem transformEvent_unlisted_kind_counterexample:
  "transformEvent (ToolCallResponse ''call-1'' (Some ''done'')) \<noteq> None"
  by simp

text \<open>
  Claim C7, amended: the transform is a total function (every HOL function is, and it
  reads no state), it maps Content(text) to content{text} (the empty text when the value
  is undefined), Thought to thought{"subject: description"}, ToolCallRequest to
  tool_call{toolName, args}, ToolCallResponse to tool_result{toolName: callId, result:
  resultDisplay}, ToolCallConfirmation to tool_confirm_request{toolName, args, details},
  Error to error{message}, ChatCompressed to chat_compressed{}, and every other kind to
  none.
\<close>

theorem transformEvent_table:
  "transformEvent (Content (Some text)) = Some (content text)
   \<and> transformEvent (Content None) = Some (content [])
   \<and> transformEvent (Thought subject description) =
       Some (thought (subject @ '': '' @ description))
   \<and> transformEvent (ToolCallRequest r) = Some (tool_call (name r) (args r))
   \<and> transformEvent (ToolCallResponse cid (Some d)) = Some (tool_result cid (Str d))
   \<and> transformEvent (ToolCallResponse cid None) = Some (tool_result cid Undefined)
   \<and> transformEvent (ToolCallConfirmation r confirmDetails) =
       Some (tool_confirm_request (name r) (args r) (RawDetails confirmDetails))
   \<and> transformEvent (Error msg str) = Some (error msg)
   \<and> transformEvent ChatCompressed = Some chat_compressed
   \<and> transformEvent (OtherEvent tag) = None"
  by simp

section \<open>Properties of sendMessage\<close>

text \<open>
  Claim C10: with no active session (the session slot is null), \<^verbatim>\<open>sendMessage\<close> throws
  an error with the message "No active session", and it has opened no stream, sent no
  observer event and left the manager as it was.
\<close>

theorem sendMessage_no_active_session:
  "session s = None \<Longrightarrow>
     sendMessage world message s =
       (Inl (JsError ''Error'' ''No active session''), \<lparr>st = s, emitted = [], calls = []\<rparr>)"
  by (simp add: sendMessage_def prologue_def)

theorem sendMessage_no_active_session_witness:
  "session no_manager = None
   \<and> sendMessage greeting_world ''hi'' no_manager =
       (Inl (JsError ''Error'' ''No active session''),
        \<lparr>st = no_manager, emitted = [], calls = []\<rparr>)"
  using sendMessage_no_active_session [of no_manager greeting_world "''hi''"]
  by (simp add: no_manager_def)

text \<open>
  Claim C9: the session has one \<open>abortController\<close> field, so it holds at most one
  controller. After a call of \<^verbatim>\<open>sendMessage\<close>, however the turn ended, a session that is
  there has null in that field; when the call has returned, the session is there, its
  field is null, and the next call begins its turn by creating a controller that did
  not exist before, whose signal has not fired, and by storing it in the field. (When
  the session has been closed during the turn, line 477 throws a TypeError and the call
  does not return; there is no session left to hold a controller.)
\<close>

theorem sendMessage_clears_abortController:
  "(\<forall>sess'. session (st (snd (sendMessage world message s))) = Some sess' \<longrightarrow>
       abortController sess' = None)
   \<and> (fst (sendMessage world message s) = Inr () \<longrightarrow>
        (\<exists>sess'. session (st (snd (sendMessage world message s))) = Some sess'
           \<and> abortController sess' = None
           \<and> prologue (st (snd (sendMessage world message s))) =
               Inr (model (config sess'),
                    length (aborted (st (snd (sendMessage world message s)))),
                    (st (snd (sendMessage world message s)))
                      \<lparr>aborted := aborted (st (snd (sendMessage world message s))) @ [False],
                       session := Some (sess'\<lparr>abortController :=
                          Some (length (aborted (st (snd (sendMessage world message s)))))\<rparr>)\<rparr>)
           \<and> \<not> signal_aborted (snd (beginTurn (st (snd (sendMessage world message s)))))
                  (length (aborted (st (snd (sendMessage world message s)))))))"
proof (intro conjI allI impI)
  fix sess'
  assume s': "session (st (snd (sendMessage world message s))) = Some sess'"
  from sendMessage_cleared [of world message s]
  have "cleared (snd (sendMessage world message s))" by simp
  with s' show "abortController sess' = None" by (simp add: cleared_def)
next
  let ?s = "st (snd (sendMessage world message s))"
  assume r: "fst (sendMessage world message s) = Inr ()"
  note c = sendMessage_cleared [of world message s]
  with r obtain sess' where s': "session ?s = Some sess'" by (auto simp: active_def)
  with c have n: "abortController sess' = None" by (simp add: cleared_def)
  from s' have p: "prologue ?s =
      Inr (model (config sess'), length (aborted ?s),
           ?s\<lparr>aborted := aborted ?s @ [False],
              session := Some (sess'\<lparr>abortController := Some (length (aborted ?s))\<rparr>)\<rparr>)"
    by (simp add: prologue_def beginTurn_def newAbortController_def setAbortController_def)
  from beginTurn_unfired [of ?s] beginTurn_fresh [of ?s]
  have "\<not> signal_aborted (snd (beginTurn ?s)) (length (aborted ?s))" by simp
  with s' n p show "\<exists>sess'. session ?s = Some sess'
           \<and> abortController sess' = None
           \<and> prologue ?s =
               Inr (model (config sess'), length (aborted ?s),
                    ?s\<lparr>aborted := aborted ?s @ [False],
                       session := Some (sess'\<lparr>abortController := Some (length (aborted ?s))\<rparr>)\<rparr>)
           \<and> \<not> signal_aborted (snd (beginTurn ?s)) (length (aborted ?s))"
    by blast
qed

theorem sendMessage_clears_abortController_witness:
  "fst (sendMessage greeting_world ''hi'' fresh_manager) = Inr ()
   \<and> last (emitted (snd (sendMessage greeting_world ''hi'' fresh_manager))) = finished
   \<and> (\<exists>sess'. session (st (snd (sendMessage greeting_world ''hi'' fresh_manager))) = Some sess'
          \<and> abortController sess' = None
          \<and> prologue (st (snd (sendMessage greeting_world ''hi'' fresh_manager))) =
              Inr (model (config sess'), 1,
                   (st (snd (sendMessage greeting_world ''hi'' fresh_manager)))
                     \<lparr>aborted := [False, False],
                      session := Some (sess'\<lparr>abortController := Some 1\<rparr>)\<rparr>))
   \<and> fst (sendMessage failing_stream_world ''hi'' fresh_manager) = Inr ()
   \<and> last (emitted (snd (sendMessage failing_stream_world ''hi'' fresh_manager))) = error ''boom''
   \<and> (\<exists>sess'. session (st (snd (sendMessage failing_stream_world ''hi'' fresh_manager))) = Some sess'
          \<and> abortController sess' = None)
   \<and> fst (sendMessage cancel_world ''hi'' fresh_manager) = Inr ()
   \<and> last (emitted (snd (sendMessage cancel_world ''hi'' fresh_manager))) = cancelled
   \<and> (\<exists>sess'. session (st (snd (sendMessage cancel_world ''hi'' fresh_manager))) = Some sess'
          \<and> abortController sess' = None)"
proof -
  let ?g = "st (snd (sendMessage greeting_world ''hi'' fresh_manager))"
  have g1: "fst (sendMessage greeting_world ''hi'' fresh_manager) = Inr ()"
    by code_simp
  have g2: "last (emitted (snd (sendMessage greeting_world ''hi'' fresh_manager))) = finished"
    by code_simp
  have g3: "aborted ?g = [False]"
    by code_simp
  have f1: "fst (sendMessage failing_stream_world ''hi'' fresh_manager) = Inr ()"
    by code_simp
  have f2: "last (emitted (snd (sendMessage failing_stream_world ''hi'' fresh_manager))) = error ''boom''"
    by code_simp
  have c1: "fst (sendMessage cancel_world ''hi'' fresh_manager) = Inr ()"
    by code_simp
  have c2: "last (emitted (snd (sendMessage cancel_world ''hi'' fresh_manager))) = cancelled"
    by code_simp
  note tg = sendMessage_clears_abortController [of greeting_world "''hi''" fresh_manager]
  note tf = sendMessage_clears_abortController [of failing_stream_world "''hi''" fresh_manager]
  note tc = sendMessage_clears_abortController [of cancel_world "''hi''" fresh_manager]
  from tg g1 obtain sess' where "session ?g = Some sess'" and "abortController sess' = None"
    and "prologue ?g =
               Inr (model (config sess'), length (aborted ?g),
                    ?g\<lparr>aborted := aborted ?g @ [False],
                       session := Some (sess'\<lparr>abortController := Some (length (aborted ?g))\<rparr>)\<rparr>)"
    by blast
  with g3 have a: "\<exists>sess'. session ?g = Some sess'
          \<and> abortController sess' = None
          \<and> prologue ?g =
              Inr (model (config sess'), 1,
                   ?g\<lparr>aborted := [False, False],
                      session := Some (sess'\<lparr>abortController := Some 1\<rparr>)\<rparr>)"
    by simp
  from tf f1 have b: "\<exists>sess'. session (st (snd (sendMessage failing_stream_world ''hi'' fresh_manager))) = Some sess'
          \<and> abortController sess' = None"
    by blast
  from tc c1 have d: "\<exists>sess'. session (st (snd (sendMessage cancel_world ''hi'' fresh_manager))) = Some sess'
          \<and> abortController sess' = None"
    by blast
  from g1 g2 a f1 f2 b c1 c2 d show ?thesis by blast
qed

section \<open>Properties of reconciliation\<close>





section \<open>The error, fallback and cancellation paths at concrete inputs\<close>

text \<open>
  Claim C2 (exactly one terminal observer event per \<^verbatim>\<open>sendMessage\<close>, and one \<open>error\<close>
  event for a terminal Error stream event) at the stream that yields one Error event
  with the message "boom": the transformed event is sent at line 325 and the error is
  sent again at line 354, so the observer receives two \<open>error\<close> events.
\<close>

theorem stream_error_emitted_twice:
  "sendMessage failing_stream_world ''hi'' fresh_manager =
     (Inr (),
      \<lparr>st = fresh_manager\<lparr>aborted := [False]\<rparr>,
       emitted = [error ''boom'', error ''boom''],
       calls = [\<lparr>call_model = ''gemini-2.5-pro'', call_round = 1,
                 call_message = [TextPart ''hi'']\<rparr>]\<rparr>)"
  by code_simp

text \<open>
  Claim C4 (a quota failure with models left switches the model and restarts the turn
  without any \<open>error\<close> event) at a turn whose second round yields a quota Error event:
  the turn restarts at round 1 with the user's message on the next model, but the
  observer has received an \<open>error\<close> event for the quota failure first. When the same
  failure is thrown instead, no \<open>error\<close> event is sent.
\<close>

theorem quota_event_emits_error_before_switch:
  "emitted (snd (sendMessage quota_event_world ''hi'' fresh_manager)) =
     [tool_call ''read_file'' ''{path: a.txt}'',
      tool_result ''read_file'' (Str ''text''),
      error ''You exceeded your current quota'',
      content (switchNotice ''gemini-2.5-pro'' ''gemini-2.5-flash''),
      content ''hello'',
      finished]
   \<and> emitted (snd (sendMessage quota_thrown_world ''hi'' fresh_manager)) =
     [tool_call ''read_file'' ''{path: a.txt}'',
      tool_result ''read_file'' (Str ''text''),
      content (switchNotice ''gemini-2.5-pro'' ''gemini-2.5-flash''),
      content ''hello'',
      finished]
   \<and> calls (snd (sendMessage quota_event_world ''hi'' fresh_manager)) =
     [\<lparr>call_model = ''gemini-2.5-pro'', call_round = 1, call_message = [TextPart ''hi'']\<rparr>,
      \<lparr>call_model = ''gemini-2.5-pro'', call_round = 2,
        call_message = [FunctionResponsePart ''read_file'' [(''output'', ''text'')]]\<rparr>,
      \<lparr>call_model = ''gemini-2.5-flash'', call_round = 1, call_message = [TextPart ''hi'']\<rparr>]"
  by code_simp

text \<open>
  Claim C5 (when the chain is used up, exactly one \<open>error\<close> event whose message names
  every model, for an Error event as for an exception) at the world whose every stream
  yields a quota Error event: on the last model the observer receives the provider's
  message twice, and no event names the chain. When every stream throws instead, the
  last event is the one message that names every model.
\<close>

theorem quota_events_never_name_the_chain:
  "emitted (snd (sendMessage quota_events_world ''hi'' fresh_manager)) =
     [error ''You exceeded your current quota'',
      content (switchNotice ''gemini-2.5-pro'' ''gemini-2.5-flash''),
      error ''You exceeded your current quota'',
      content (switchNotice ''gemini-2.5-flash'' ''gemini-2.0-flash''),
      error ''You exceeded your current quota'',
      content (switchNotice ''gemini-2.0-flash'' ''gemini-1.5-flash''),
      error ''You exceeded your current quota'',
      error ''You exceeded your current quota'']
   \<and> \<not> includes' ''You exceeded your current quota'' ''gemini-2.5-pro''
   \<and> emitted (snd (sendMessage quota_throws_world ''hi'' fresh_manager)) =
     [content (switchNotice ''gemini-2.5-pro'' ''gemini-2.5-flash''),
      content (switchNotice ''gemini-2.5-flash'' ''gemini-2.0-flash''),
      content (switchNotice ''gemini-2.0-flash'' ''gemini-1.5-flash''),
      error exhaustedMessage]
   \<and> list_all (includes' exhaustedMessage) MODEL_FALLBACK_CHAIN"
  by code_simp

text \<open>
  Claim C8 (cancelling an in-flight turn fires its signal, and the next stream event
  gives one \<open>cancelled\<close> event) at a turn restarted after a quota exception: the two
  calls of \<^verbatim>\<open>cancelCurrentRequest\<close> find the session's controller field null (see
  \<open>beginTurn\<close>), no signal fires, and the turn runs on to \<open>finished\<close>. In a turn that
  was not restarted the same stream gives the one \<open>cancelled\<close> event.
\<close>

theorem cancel_in_restarted_turn_is_lost:
  "emitted (snd (sendMessage cancel_world ''hi'' fresh_manager)) = [cancelled]
   \<and> emitted (snd (sendMessage cancel_after_restart_world ''hi'' fresh_manager)) =
       [content (switchNotice ''gemini-2.5-pro'' ''gemini-2.5-flash''),
        content ''hello'',
        finished]
   \<and> aborted (st (snd (sendMessage cancel_after_restart_world ''hi'' fresh_manager))) =
       [False, False]"
  by code_simp




section \<open>Properties of the confirmation slot\<close>




section \<open>Properties of the turn budget\<close>

text \<open>
  Claim C3: \<open>maxTurns\<close> is 50. Whatever the model session and the scheduler do, a run of
  the turn loop opens at most 50 streams, numbered 1, 2, ... in order, and when it ends
  by running out of turns it has opened exactly 50 and the last event it sent is the
  error "Maximum conversation turns exceeded". Every stream that \<^verbatim>\<open>sendMessage\<close> opens has
  a round number between 1 and 50 (a restart after a model switch runs the loop again
  from round 1, so one call opens at most 50 streams per model of the chain). With a
  model that requests tools in every round, \<^verbatim>\<open>sendMessage\<close> on an active session returns
  after exactly 50 rounds, and the one terminal event it has sent is that error.
\<close>

theorem turn_budget:
  "maxTurns = 50
   \<and> (turnLoop world client signal 0 currentMessage c = (ex, c') \<longrightarrow>
        (\<exists>new. calls c' = calls c @ new \<and> length new \<le> maxTurns
           \<and> (\<forall>i < length new. call_round (new ! i) = i + 1)
           \<and> (ex = LoopMaxTurns \<longrightarrow>
                length new = maxTurns
                \<and> (\<exists>es. emitted c' = es @ [error ''Maximum conversation turns exceeded'']))))
   \<and> (\<forall>call \<in> set (calls (snd (sendMessage world message s))).
         1 \<le> call_round call \<and> call_round call \<le> maxTurns)
   \<and> length (calls (snd (sendMessage world message s))) \<le> maxTurns * length MODEL_FALLBACK_CHAIN
   \<and> (session s \<noteq> None \<and> (\<forall>j. requestsTools (world j)) \<longrightarrow>
        fst (sendMessage world message s) = Inr ()
        \<and> length (calls (snd (sendMessage world message s))) = maxTurns
        \<and> terminals (snd (sendMessage world message s)) =
            [error ''Maximum conversation turns exceeded'']
        \<and> last (emitted (snd (sendMessage world message s))) =
            error ''Maximum conversation turns exceeded'')"
proof (intro conjI impI)
  show "maxTurns = 50" by (simp add: maxTurns_def)
next
  assume "turnLoop world client signal 0 currentMessage c = (ex, c')"
  from turnLoop_calls [OF this]
  show "\<exists>new. calls c' = calls c @ new \<and> length new \<le> maxTurns
           \<and> (\<forall>i < length new. call_round (new ! i) = i + 1)
           \<and> (ex = LoopMaxTurns \<longrightarrow>
                length new = maxTurns
                \<and> (\<exists>es. emitted c' = es @ [error ''Maximum conversation turns exceeded'']))"
    by simp
next
  have "\<exists>new. calls (snd (sendMessage world message s)) = new
           \<and> list_all round_in_budget new
           \<and> length new \<le> maxTurns * length MODEL_FALLBACK_CHAIN"
  proof (cases "prologue s")
    case (Inl e)
    then show ?thesis by (simp add: sendMessage_def)
  next
    case (Inr r)
    then obtain client k s1 where p: "prologue s = Inr (client, k, s1)" by (cases r) auto
    let ?c = "\<lparr>st = s1, emitted = [], calls = []\<rparr>"
    from runTurn_calls [of world message client k ?c]
    obtain new where n: "calls (snd (runTurn world message client k ?c)) = new"
      and b: "list_all round_in_budget new"
      and l: "length new \<le> maxTurns * Suc (switchesLeft ?c)"
      by auto
    from switchesLeft_bound [of ?c]
    have "maxTurns * Suc (switchesLeft ?c) \<le> maxTurns * length MODEL_FALLBACK_CHAIN"
      by (rule mult_le_mono2)
    with p n b l show ?thesis by (simp add: sendMessage_def)
  qed
  then obtain new where n: "calls (snd (sendMessage world message s)) = new"
    and b: "list_all round_in_budget new"
    and l: "length new \<le> maxTurns * length MODEL_FALLBACK_CHAIN"
    by blast
  from n b show "\<forall>call \<in> set (calls (snd (sendMessage world message s))).
         1 \<le> call_round call \<and> call_round call \<le> maxTurns"
    by (simp add: list_all_iff round_in_budget_def)
  from n l show "length (calls (snd (sendMessage world message s)))
                   \<le> maxTurns * length MODEL_FALLBACK_CHAIN"
    by simp
next
  assume a: "session s \<noteq> None \<and> (\<forall>j. requestsTools (world j))"
  then obtain sess where sess: "session s = Some sess" by auto
  from a have rt: "\<forall>j. requestsTools (world j)" by simp
  note r = sendMessage_exhausts [OF sess rt, of message]
  from r show "fst (sendMessage world message s) = Inr ()" by simp
  from r show "length (calls (snd (sendMessage world message s))) = maxTurns" by simp
  from r show "terminals (snd (sendMessage world message s)) =
            [error ''Maximum conversation turns exceeded'']" by simp
  from r show "last (emitted (snd (sendMessage world message s))) =
            error ''Maximum conversation turns exceeded''" by simp
qed

theorem turn_budget_witness:
  "session fresh_manager \<noteq> None
   \<and> (\<forall>j. requestsTools (tools_forever_world j))
   \<and> fst (sendMessage tools_forever_world ''hi'' fresh_manager) = Inr ()
   \<and> length (calls (snd (sendMessage tools_forever_world ''hi'' fresh_manager))) = 50
   \<and> list_all round_in_budget
         (calls (snd (sendMessage tools_forever_world ''hi'' fresh_manager)))
   \<and> terminals (snd (sendMessage tools_forever_world ''hi'' fresh_manager)) =
        [error ''Maximum conversation turns exceeded'']
   \<and> fst (turnLoop tools_forever_world ''gemini-2.5-pro'' 0 0 [TextPart ''hi'']
             \<lparr>st = snd (beginTurn fresh_manager), emitted = [], calls = []\<rparr>)
       = LoopMaxTurns
   \<and> (\<exists>es. emitted (snd (turnLoop tools_forever_world ''gemini-2.5-pro'' 0 0 [TextPart ''hi'']
             \<lparr>st = snd (beginTurn fresh_manager), emitted = [], calls = []\<rparr>))
        = es @ [error ''Maximum conversation turns exceeded''])"
proof -
  let ?c = "\<lparr>st = snd (beginTurn fresh_manager), emitted = [], calls = []\<rparr>"
  let ?t = "turnLoop tools_forever_world ''gemini-2.5-pro'' 0 0 [TextPart ''hi''] ?c"
  have h1: "session fresh_manager \<noteq> None"
    by (simp add: fresh_manager_def createSession_def no_manager_def Let_def)
  have h2: "\<forall>j. requestsTools (tools_forever_world j)"
    by (simp add: requestsTools_def tools_forever_world_def tool_round_def read_request_def)
  have na: "\<not> signal_aborted (st ?c) 0"
    by (simp add: signal_aborted_def beginTurn_def newAbortController_def fresh_manager_def
                  createSession_def no_manager_def setAbortController_def Let_def)
  have ac: "active ?c"
    by (simp add: active_def beginTurn_def newAbortController_def fresh_manager_def
                  createSession_def no_manager_def setAbortController_def Let_def)
  from turnLoop_exhausts [OF h2 na ac, of "''gemini-2.5-pro''" 0 "[TextPart ''hi'']"]
  have h3: "fst ?t = LoopMaxTurns" by auto
  then have h3': "?t = (LoopMaxTurns, snd ?t)" by (metis prod.collapse)
  note t = turn_budget [of tools_forever_world "''gemini-2.5-pro''" 0 "[TextPart ''hi'']" ?c
                           LoopMaxTurns "snd ?t" "''hi''" fresh_manager]
  from t have m: "maxTurns = 50" by blast
  from t h1 h2 have a:
    "fst (sendMessage tools_forever_world ''hi'' fresh_manager) = Inr ()
     \<and> length (calls (snd (sendMessage tools_forever_world ''hi'' fresh_manager))) = maxTurns
     \<and> terminals (snd (sendMessage tools_forever_world ''hi'' fresh_manager)) =
        [error ''Maximum conversation turns exceeded'']"
    by blast
  from t have b:
    "\<forall>call \<in> set (calls (snd (sendMessage tools_forever_world ''hi'' fresh_manager))).
         1 \<le> call_round call \<and> call_round call \<le> maxTurns"
    by blast
  from t h3' have d:
    "\<exists>es. emitted (snd ?t) = es @ [error ''Maximum conversation turns exceeded'']"
    by blast
  from b have b': "list_all round_in_budget
         (calls (snd (sendMessage tools_forever_world ''hi'' fresh_manager)))"
    by (simp add: list_all_iff round_in_budget_def)
  from h1 h2 h3 a b' d m show ?thesis by simp
qed

end
